theory Spec2Isabelle
  imports Main "HOL-Library.Word"
begin

section \<open>JavaScript strings and the built-ins the library calls\<close>

text \<open>
  A JavaScript string is a sequence of 16-bit UTF-16 code units. \<open>str\<close> turns an
  ASCII literal into such a sequence, so that the inputs below read as the source writes
  them.
\<close>

type_synonym jsstring = "16 word list"

definition str :: "string \<Rightarrow> jsstring" where
  "str s = map of_char s"

text \<open>
  A JavaScript number, as far as the library uses one: \<open>NaN\<close>, an integer or an
  infinity (\<open>parseInt\<close> and \<open>Date.parse\<close> return nothing else). An integer stands
  for the double of that value; fractions are outside the model, and \<open>-0\<close> is \<open>0\<close>
  (both are falsy and print as "0").
\<close>

datatype jsnum = NaN | Num int | PosInfinity | NegInfinity

text \<open>
  The Number value of a mathematical integer: itself below \<open>2^53\<close>, otherwise rounded
  to 53 significant bits, to nearest with ties to even, and an infinity from
  \<open>2^1024 - 2^970\<close> on.
\<close>

function bitLength :: "int \<Rightarrow> nat" where
  "bitLength a = (if a \<le> 0 then 0 else Suc (bitLength (a div 2)))"
  by pat_completeness auto
termination
  by (relation "measure nat") auto

declare bitLength.simps [simp del]

definition roundToDouble :: "int \<Rightarrow> jsnum" where
  "roundToDouble i =
     (let a = \<bar>i\<bar>;
          e = bitLength a - 53;
          q = a div 2 ^ e;
          r = a mod 2 ^ e;
          q' = (if 2 ^ e < 2 * r \<or> (2 * r = 2 ^ e \<and> odd q) then q + 1 else q);
          v = q' * 2 ^ e
      in if 2 ^ 1024 \<le> v then (if i < 0 then NegInfinity else PosInfinity)
         else Num (if i < 0 then - v else v))"

definition numberValue :: "int \<Rightarrow> jsnum" where
  "numberValue i = (if \<bar>i\<bar> < 2 ^ 53 then Num i else roundToDouble i)"

text \<open>The errors the library throws, with the message of the source.\<close>

datatype error = TypeError string | Error string | URIError

text \<open>
  \<open>String.prototype.trim\<close> removes WhiteSpace and LineTerminator code units
  (ECMAScript: TAB, LF, VT, FF, CR, SP, NBSP, the Unicode space separators, LS, PS and
  ZWNBSP) from both ends.
\<close>

definition isWhiteSpace :: "16 word \<Rightarrow> bool" where
  "isWhiteSpace c =
     (c \<in> set [0x09, 0x0A, 0x0B, 0x0C, 0x0D, 0x20, 0xA0, 0x1680, 0x2028, 0x2029,
               0x202F, 0x205F, 0x3000, 0xFEFF]
      \<or> (0x2000 \<le> c \<and> c \<le> 0x200A))"

definition trim :: "jsstring \<Rightarrow> jsstring" where
  "trim s = rev (dropWhile isWhiteSpace (rev (dropWhile isWhiteSpace s)))"

text \<open>\<open>indexOf\<close> of a one-character pattern; \<open>None\<close> is the source's -1.\<close>

fun indexOf :: "16 word \<Rightarrow> jsstring \<Rightarrow> nat option" where
  "indexOf c [] = None"
| "indexOf c (x # xs) = (if x = c then Some 0 else map_option Suc (indexOf c xs))"

text \<open>\<open>s.substring(a, b)\<close> (the arguments are swapped when \<open>b < a\<close>) and \<open>s.substring(a)\<close>.\<close>

definition substring :: "jsstring \<Rightarrow> nat \<Rightarrow> nat \<Rightarrow> jsstring" where
  "substring s a b = take (max a b - min a b) (drop (min a b) s)"

definition substringFrom :: "jsstring \<Rightarrow> nat \<Rightarrow> jsstring" where
  "substringFrom s a = drop a s"

text \<open>\<open>s.split(c)\<close> for a one-character separator: never empty, \<open>"".split(";")\<close> is \<open>[""]\<close>.\<close>

fun splitAcc :: "16 word \<Rightarrow> jsstring \<Rightarrow> jsstring \<Rightarrow> jsstring list" where
  "splitAcc c acc [] = [acc]"
| "splitAcc c acc (x # xs) =
     (if x = c then acc # splitAcc c [] xs else splitAcc c (acc @ [x]) xs)"

definition split_str :: "16 word \<Rightarrow> jsstring \<Rightarrow> jsstring list" where
  "split_str c s = splitAcc c [] s"

definition startsWith :: "jsstring \<Rightarrow> 16 word \<Rightarrow> bool" where
  "startsWith s c = (case s of [] \<Rightarrow> False | x # _ \<Rightarrow> x = c)"

definition includes_str :: "jsstring \<Rightarrow> 16 word \<Rightarrow> bool" where
  "includes_str s c = (c \<in> set s)"

text \<open>
  \<open>String.prototype.toLowerCase\<close>. The model lower-cases the ASCII letters and the
  KELVIN SIGN (U+212A), which are the only code points whose lower-case form is an ASCII
  character, and keeps every other code unit. The library compares the result with ASCII
  literals and passes it to the domain validator, which accepts ASCII only; neither can
  tell this model from the full Unicode mapping.
\<close>

definition toLowerUnit :: "16 word \<Rightarrow> 16 word" where
  "toLowerUnit c =
     (if 0x41 \<le> c \<and> c \<le> 0x5A then c + 0x20 else if c = 0x212A then 0x6B else c)"

definition toLowerCase :: "jsstring \<Rightarrow> jsstring" where
  "toLowerCase s = map toLowerUnit s"

text \<open>
  \<open>parseInt(s, 10)\<close>: leading white space is skipped, then an optional sign, then the
  longest run of decimal digits; no digit gives \<open>NaN\<close>, and the result is the Number
  value of the signed integer the digits denote. (Beyond 20 significant digits the
  standard lets an engine replace the later digits by zeros; the model takes every digit,
  as the engines that parse the run with a correctly rounding conversion do.)
\<close>

definition isDigit :: "16 word \<Rightarrow> bool" where
  "isDigit c = (0x30 \<le> c \<and> c \<le> 0x39)"

definition digitsValue :: "jsstring \<Rightarrow> int" where
  "digitsValue ds = foldl (\<lambda>a d. 10 * a + (int (unat d) - 48)) 0 ds"

definition parseInt10 :: "jsstring \<Rightarrow> jsnum" where
  "parseInt10 s =
     (let t = dropWhile isWhiteSpace s;
          neg = (case t of [] \<Rightarrow> False | c # _ \<Rightarrow> c = 0x2D);
          u = (case t of [] \<Rightarrow> [] | c # r \<Rightarrow> if c = 0x2D \<or> c = 0x2B then r else t);
          ds = takeWhile isDigit u
      in if ds = [] then NaN
         else numberValue (if neg then - digitsValue ds else digitsValue ds))"

text \<open>
  A number in a template literal (\<open>Number::toString\<close>). Below \<open>2^53\<close> an integer
  prints its decimal digits. From there on the digits are the shortest decimal \<open>s\<close>,
  of \<open>k\<close> digits, such that \<open>s * 10^(n-k)\<close> has the Number value \<open>x\<close> (the closest
  one, then the even one, when several do); they are followed by zeros when \<open>n\<close> is at
  most 21, and written in exponent form otherwise.
\<close>

function decimalDigits :: "int \<Rightarrow> jsstring" where
  "decimalDigits a =
     (if a < 10 then [of_int (48 + a)]
      else decimalDigits (a div 10) @ [of_int (48 + a mod 10)])"
  by pat_completeness auto
termination
  by (relation "measure nat") auto

declare decimalDigits.simps [simp del]

definition digitCandidates :: "int \<Rightarrow> nat \<Rightarrow> nat \<Rightarrow> (int \<times> nat) list" where
  "digitCandidates x k n =
     map (\<lambda>s. (s, n))
       (filter (\<lambda>s. 10 ^ (k - 1) \<le> s \<and> s < 10 ^ k
                    \<and> numberValue (s * 10 ^ (n - k)) = Num x)
          [x div 10 ^ (n - k), x div 10 ^ (n - k) + 1])"

definition distanceTo :: "int \<Rightarrow> nat \<Rightarrow> int \<times> nat \<Rightarrow> int" where
  "distanceTo x k c = \<bar>fst c * 10 ^ (snd c - k) - x\<bar>"

fun closest :: "int \<Rightarrow> nat \<Rightarrow> (int \<times> nat) list \<Rightarrow> (int \<times> nat) option" where
  "closest x k [] = None"
| "closest x k (c # cs) =
     (case closest x k cs of
        None \<Rightarrow> Some c
      | Some c' \<Rightarrow>
          if distanceTo x k c < distanceTo x k c'
             \<or> (distanceTo x k c = distanceTo x k c' \<and> even (fst c))
          then Some c else Some c')"

text \<open>
  The digits \<open>s\<close> and the exponent \<open>n\<close> of \<open>x\<close>: the first \<open>k\<close> that has a candidate.
  The decimal digits of \<open>x\<close> themselves are a candidate when \<open>x\<close> is the value of a
  double, so the search ends there at the latest.
\<close>

definition shortestDigits :: "int \<Rightarrow> int \<times> nat" where
  "shortestDigits x =
     (let d = length (decimalDigits x) in
      case List.map_filter
             (\<lambda>k. closest x k (digitCandidates x k d @ digitCandidates x k (Suc d)))
             [1..<Suc d] of
        [] \<Rightarrow> (x, d)
      | c # _ \<Rightarrow> c)"

definition shortestString :: "int \<Rightarrow> jsstring" where
  "shortestString x =
     (let s = fst (shortestDigits x); n = snd (shortestDigits x);
          digits = decimalDigits s; k = length digits
      in if n \<le> 21 then digits @ replicate (n - k) 0x30
         else
           (case digits of
              [] \<Rightarrow> []
            | d # rest \<Rightarrow>
                (if rest = [] then [d] else d # 0x2E # rest)
                @ str ''e+'' @ decimalDigits (int n - 1)))"

text \<open>The string of a number that is not negative.\<close>

definition magnitudeToString :: "int \<Rightarrow> jsstring" where
  "magnitudeToString x = (if x < 2 ^ 53 then decimalDigits x else shortestString x)"

definition numToString :: "jsnum \<Rightarrow> jsstring" where
  "numToString x =
     (case x of
        NaN \<Rightarrow> str ''NaN''
      | PosInfinity \<Rightarrow> str ''Infinity''
      | NegInfinity \<Rightarrow> str ''-Infinity''
      | Num i \<Rightarrow> if i < 0 then 0x2D # magnitudeToString (- i) else magnitudeToString i)"

subsection \<open>encodeURIComponent\<close>

text \<open>
  Every code point outside the unreserved set \<open>A-Z a-z 0-9 - _ . ! ~ * ' ( )\<close> is written
  as the percent-escaped octets of its UTF-8 encoding; a surrogate that is not part of a
  pair throws URIError.
\<close>

definition isUnreserved :: "16 word \<Rightarrow> bool" where
  "isUnreserved c =
     ((0x41 \<le> c \<and> c \<le> 0x5A) \<or> (0x61 \<le> c \<and> c \<le> 0x7A) \<or> (0x30 \<le> c \<and> c \<le> 0x39)
      \<or> c \<in> set [0x2D, 0x5F, 0x2E, 0x21, 0x7E, 0x2A, 0x27, 0x28, 0x29])"

definition hexDigit :: "nat \<Rightarrow> 16 word" where
  "hexDigit n = (if n < 10 then of_nat (48 + n) else of_nat (55 + n))"

definition pctOctet :: "nat \<Rightarrow> jsstring" where
  "pctOctet b = [0x25, hexDigit (b div 16 mod 16), hexDigit (b mod 16)]"

definition utf8 :: "nat \<Rightarrow> nat list" where
  "utf8 cp =
     (if cp < 0x80 then [cp]
      else if cp < 0x800 then [0xC0 + cp div 64, 0x80 + cp mod 64]
      else if cp < 0x10000 then
        [0xE0 + cp div 4096, 0x80 + cp div 64 mod 64, 0x80 + cp mod 64]
      else [0xF0 + cp div 262144, 0x80 + cp div 4096 mod 64, 0x80 + cp div 64 mod 64,
            0x80 + cp mod 64])"

definition pctEncode :: "nat \<Rightarrow> jsstring" where
  "pctEncode cp = concat (map pctOctet (utf8 cp))"

definition isHighSurrogate :: "16 word \<Rightarrow> bool" where
  "isHighSurrogate c = (0xD800 \<le> c \<and> c \<le> 0xDBFF)"

definition isLowSurrogate :: "16 word \<Rightarrow> bool" where
  "isLowSurrogate c = (0xDC00 \<le> c \<and> c \<le> 0xDFFF)"

fun encodeURIComponent :: "jsstring \<Rightarrow> error + jsstring" where
  "encodeURIComponent [] = Inr []"
| "encodeURIComponent (c # cs) =
     (if isUnreserved c then map_sum id ((#) c) (encodeURIComponent cs)
      else if isLowSurrogate c then Inl URIError
      else if isHighSurrogate c then
        (case cs of
           [] \<Rightarrow> Inl URIError
         | d # ds \<Rightarrow>
             if isLowSurrogate d then
               map_sum id
                 ((@) (pctEncode (0x10000 + (unat c - 0xD800) * 0x400 + (unat d - 0xDC00))))
                 (encodeURIComponent ds)
             else Inl URIError)
      else map_sum id ((@) (pctEncode (unat c))) (encodeURIComponent cs))"

subsection \<open>decodeURIComponent\<close>

text \<open>
  ECMAScript's Decode with an empty reserved set: \<open>%XX\<close> is an octet; an octet below
  0x80 is that character; a lead octet announces one to three continuation escapes, and
  the octets must be the UTF-8 encoding of a code point (no overlong form, no surrogate,
  at most U+10FFFF). Anything else throws URIError, modelled as \<open>None\<close>.
\<close>

definition hexValue :: "16 word \<Rightarrow> nat option" where
  "hexValue c =
     (let n = unat c in
      if 48 \<le> n \<and> n \<le> 57 then Some (n - 48)
      else if 65 \<le> n \<and> n \<le> 70 then Some (n - 55)
      else if 97 \<le> n \<and> n \<le> 102 then Some (n - 87)
      else None)"

fun readOctet :: "jsstring \<Rightarrow> (nat \<times> jsstring) option" where
  "readOctet (p # a # b # rest) =
     (if p = 0x25 then
        (case hexValue a of
           None \<Rightarrow> None
         | Some x \<Rightarrow> (case hexValue b of None \<Rightarrow> None | Some y \<Rightarrow> Some (16 * x + y, rest)))
      else None)"
| "readOctet _ = None"

fun readOctets :: "nat \<Rightarrow> jsstring \<Rightarrow> (nat list \<times> jsstring) option" where
  "readOctets 0 s = Some ([], s)"
| "readOctets (Suc n) s =
     (case readOctet s of
        None \<Rightarrow> None
      | Some (b, r) \<Rightarrow>
          (case readOctets n r of None \<Rightarrow> None | Some (bs, r') \<Rightarrow> Some (b # bs, r')))"

definition isContinuation :: "nat \<Rightarrow> bool" where
  "isContinuation b = (0x80 \<le> b \<and> b \<le> 0xBF)"

definition utf8CodePoint :: "nat list \<Rightarrow> nat option" where
  "utf8CodePoint bs =
     (case bs of
        [b0, b1] \<Rightarrow>
          (let v = (b0 - 0xC0) * 64 + (b1 - 0x80) in
           if 0xC0 \<le> b0 \<and> b0 \<le> 0xDF \<and> isContinuation b1 \<and> 0x80 \<le> v then Some v else None)
      | [b0, b1, b2] \<Rightarrow>
          (let v = (b0 - 0xE0) * 4096 + (b1 - 0x80) * 64 + (b2 - 0x80) in
           if 0xE0 \<le> b0 \<and> b0 \<le> 0xEF \<and> isContinuation b1 \<and> isContinuation b2
              \<and> 0x800 \<le> v \<and> \<not> (0xD800 \<le> v \<and> v \<le> 0xDFFF)
           then Some v else None)
      | [b0, b1, b2, b3] \<Rightarrow>
          (let v = (b0 - 0xF0) * 262144 + (b1 - 0x80) * 4096 + (b2 - 0x80) * 64 + (b3 - 0x80) in
           if 0xF0 \<le> b0 \<and> b0 \<le> 0xF7 \<and> isContinuation b1 \<and> isContinuation b2
              \<and> isContinuation b3 \<and> 0x10000 \<le> v \<and> v \<le> 0x10FFFF
           then Some v else None)
      | _ \<Rightarrow> None)"

definition utf16 :: "nat \<Rightarrow> jsstring" where
  "utf16 v =
     (if v < 0x10000 then [of_nat v]
      else [of_nat (0xD800 + (v - 0x10000) div 0x400), of_nat (0xDC00 + (v - 0x10000) mod 0x400)])"

definition continuationCount :: "nat \<Rightarrow> nat option" where
  "continuationCount b =
     (if b < 0x80 then Some 0
      else if b < 0xC0 then None
      else if b < 0xE0 then Some 1
      else if b < 0xF0 then Some 2
      else if b < 0xF8 then Some 3
      else None)"

definition decodeEscape :: "jsstring \<Rightarrow> (jsstring \<times> jsstring) option" where
  "decodeEscape s =
     (case readOctet s of
        None \<Rightarrow> None
      | Some (b, r) \<Rightarrow>
          (case continuationCount b of
             None \<Rightarrow> None
           | Some 0 \<Rightarrow> Some ([of_nat b], r)
           | Some n \<Rightarrow>
               (case readOctets n r of
                  None \<Rightarrow> None
                | Some (bs, r') \<Rightarrow>
                    (case utf8CodePoint (b # bs) of
                       None \<Rightarrow> None
                     | Some v \<Rightarrow> Some (utf16 v, r')))))"

lemma readOctet_shorter: "readOctet s = Some (b, r) \<Longrightarrow> length r < length s"
  by (induction s rule: readOctet.induct) (auto split: if_splits option.splits)

lemma readOctets_shorter: "readOctets n s = Some (bs, r) \<Longrightarrow> length r \<le> length s"
proof (induction n arbitrary: s bs r)
  case 0
  then show ?case by simp
next
  case (Suc n)
  then show ?case
    by (fastforce split: option.splits prod.splits dest: readOctet_shorter)
qed

lemma decodeEscape_shorter: "decodeEscape s = Some (u, r) \<Longrightarrow> length r < length s"
  unfolding decodeEscape_def
  by (fastforce split: option.splits prod.splits nat.splits
      dest: readOctet_shorter readOctets_shorter)

function decodeURIComponent :: "jsstring \<Rightarrow> jsstring option" where
  "decodeURIComponent [] = Some []"
| "decodeURIComponent (c # cs) =
     (if c \<noteq> 0x25 then map_option ((#) c) (decodeURIComponent cs)
      else
        (case decodeEscape (c # cs) of
           None \<Rightarrow> None
         | Some (u, r) \<Rightarrow> map_option ((@) u) (decodeURIComponent r)))"
  by pat_completeness auto
termination
proof (relation "measure length")
  show "wf (measure length)" by simp
next
  fix c :: "16 word" and cs :: jsstring
  show "(cs, c # cs) \<in> measure length" by simp
next
  fix c :: "16 word" and cs x2 x y
  assume "decodeEscape (c # cs) = Some x2" and "(x, y) = x2"
  then have "decodeEscape (c # cs) = Some (x, y)" by simp
  then show "(y, c # cs) \<in> measure length"
    using decodeEscape_shorter by fastforce
qed

section \<open>Cookie\<close>

datatype CookieSameSite = Strict | Lax | None'

record CookieOptions =
  o_name :: jsstring
  o_value :: jsstring
  o_domain :: "jsstring option"
  o_path :: "jsstring option"
  o_expires :: "jsnum option"
  o_secure :: "bool option"
  o_sameSite :: "CookieSameSite option"
  o_httpOnly :: "bool option"
  o_maxAge :: "jsnum option"
  o_partitioned :: "bool option"

text \<open>The field \<open>value\<close> of the source is \<open>cvalue\<close> here.\<close>

record Cookie =
  name :: jsstring
  cvalue :: jsstring
  domain :: jsstring
  path :: jsstring
  expires :: jsnum
  secure :: bool
  sameSite :: CookieSameSite
  httpOnly :: bool
  maxAge :: jsnum
  partitioned :: bool

definition EMPTY_EXPIRES_VALUE :: jsnum where
  "EMPTY_EXPIRES_VALUE = Num (- 1)"

subsection \<open>Validation\<close>

definition isValidCharacterInCookieName :: "16 word \<Rightarrow> bool" where
  "isValidCharacterInCookieName char =
     (let code = unat char in
      (code \<ge> 0x21 \<and> code \<le> 0x3a) \<or> code = 0x3c \<or> (code \<ge> 0x3e \<and> code \<le> 0x7e))"

definition isValidCookieName :: "jsstring \<Rightarrow> bool" where
  "isValidCookieName s = (if length s = 0 then False else list_all isValidCharacterInCookieName s)"

definition isValidCharacterInCookiePath :: "16 word \<Rightarrow> bool" where
  "isValidCharacterInCookiePath char =
     (let code = unat char in
      (code \<ge> 0x20 \<and> code \<le> 0x3a) \<or> (code \<ge> 0x3d \<and> code \<le> 0x7e))"

definition isValidCookiePath :: "jsstring \<Rightarrow> bool" where
  "isValidCookiePath s = list_all isValidCharacterInCookiePath s"

definition isValidCharacterInCookieDomain :: "16 word \<Rightarrow> bool" where
  "isValidCharacterInCookieDomain char =
     (let code = unat char in
      (code \<ge> 97 \<and> code \<le> 122) \<or> (code \<ge> 48 \<and> code \<le> 57) \<or> code = 46 \<or> code = 45)"

definition isValidCookieDomain :: "jsstring \<Rightarrow> bool" where
  "isValidCookieDomain s = list_all isValidCharacterInCookieDomain s"

subsection \<open>The constructor\<close>

text \<open>
  \<open>x || d\<close> on an optional field: the default is taken when the field is absent or
  falsy (the empty string, \<open>false\<close>, \<open>0\<close>, \<open>NaN\<close>).
\<close>

definition orStr :: "jsstring option \<Rightarrow> jsstring \<Rightarrow> jsstring" where
  "orStr x d = (case x of None \<Rightarrow> d | Some s \<Rightarrow> if s = [] then d else s)"

definition orNum :: "jsnum option \<Rightarrow> jsnum \<Rightarrow> jsnum" where
  "orNum x d = (case x of None \<Rightarrow> d | Some v \<Rightarrow> if v = NaN \<or> v = Num 0 then d else v)"

definition orBool :: "bool option \<Rightarrow> bool \<Rightarrow> bool" where
  "orBool x d = (case x of None \<Rightarrow> d | Some b \<Rightarrow> if b then True else d)"

definition orSameSite :: "CookieSameSite option \<Rightarrow> CookieSameSite \<Rightarrow> CookieSameSite" where
  "orSameSite x d = (case x of None \<Rightarrow> d | Some v \<Rightarrow> v)"

text \<open>
  The guard \<open>x && !isValid(x)\<close> on an optional string: an absent or empty string is not
  checked.
\<close>

definition failsCheck :: "(jsstring \<Rightarrow> bool) \<Rightarrow> jsstring option \<Rightarrow> bool" where
  "failsCheck isValid x = (case x of None \<Rightarrow> False | Some s \<Rightarrow> s \<noteq> [] \<and> \<not> isValid s)"

definition Cookie_constructor :: "CookieOptions \<Rightarrow> error + Cookie" where
  "Cookie_constructor options =
     (if \<not> isValidCookieName (o_name options) then
        Inl (TypeError ''Invalid cookie name: contains invalid characters'')
      else if failsCheck isValidCookiePath (o_path options) then
        Inl (TypeError ''Invalid cookie path: contains invalid characters'')
      else if failsCheck isValidCookieDomain (o_domain options) then
        Inl (TypeError ''Invalid cookie domain: contains invalid characters'')
      else
        Inr \<lparr> name = o_name options,
              cvalue = o_value options,
              domain = orStr (o_domain options) [],
              path = orStr (o_path options) (str ''/''),
              expires = orNum (o_expires options) EMPTY_EXPIRES_VALUE,
              secure = orBool (o_secure options) False,
              sameSite = orSameSite (o_sameSite options) Lax,
              httpOnly = orBool (o_httpOnly options) False,
              maxAge = orNum (o_maxAge options) NaN,
              partitioned = orBool (o_partitioned options) False \<rparr>)"

definition Cookie_create :: "CookieOptions \<Rightarrow> error + Cookie" where
  "Cookie_create options = Cookie_constructor options"

text \<open>The options object \<open>{ name, value }\<close>: every other field absent.\<close>

definition nameValueOptions :: "jsstring \<Rightarrow> jsstring \<Rightarrow> CookieOptions" where
  "nameValueOptions n v =
     \<lparr> o_name = n, o_value = v, o_domain = None, o_path = None, o_expires = None,
       o_secure = None, o_sameSite = None, o_httpOnly = None, o_maxAge = None,
       o_partitioned = None \<rparr>"

subsection \<open>Cookie.parse\<close>

text \<open>The local variables of the attribute loop.\<close>

record ParseState =
  ps_domain :: jsstring
  ps_path :: jsstring
  ps_expires :: jsnum
  ps_secure :: bool
  ps_sameSite :: CookieSameSite
  ps_httpOnly :: bool
  ps_maxAge :: jsnum
  ps_partitioned :: bool
  ps_hasMaxAge :: bool

definition initialParseState :: ParseState where
  "initialParseState =
     \<lparr> ps_domain = [], ps_path = str ''/'', ps_expires = EMPTY_EXPIRES_VALUE,
       ps_secure = False, ps_sameSite = Lax, ps_httpOnly = False, ps_maxAge = NaN,
       ps_partitioned = False, ps_hasMaxAge = False \<rparr>"

text \<open>The name (lower-cased) and the value of one attribute token.\<close>

definition splitAttribute :: "jsstring \<Rightarrow> jsstring \<times> jsstring" where
  "splitAttribute attribute =
     (let trimmedAttribute = trim attribute in
      case indexOf 0x3D trimmedAttribute of
        Some assignmentPos \<Rightarrow>
          (toLowerCase (trim (substring trimmedAttribute 0 assignmentPos)),
           trim (substringFrom trimmedAttribute (assignmentPos + 1)))
      | None \<Rightarrow> (toLowerCase trimmedAttribute, []))"

text \<open>
  The \<open>switch\<close> on the attribute name. \<open>Date.parse\<close> is a parameter: what it accepts
  beyond the ISO format is left to the engine. It returns \<open>NaN\<close> or the time value.
  The two comparisons with \<open>NaN\<close> are the source's \<open>!isNaN(...)\<close>.
\<close>

definition applyAttribute :: "(jsstring \<Rightarrow> jsnum) \<Rightarrow> ParseState \<Rightarrow> jsstring \<times> jsstring \<Rightarrow> ParseState" where
  "applyAttribute dateParse st nv =
     (let attributeName = fst nv; attributeValue = snd nv in
      if attributeName = str ''domain'' then
        (if attributeValue \<noteq> [] then st\<lparr>ps_domain := toLowerCase attributeValue\<rparr> else st)
      else if attributeName = str ''path'' then
        (if attributeValue \<noteq> [] \<and> startsWith attributeValue 0x2F
         then st\<lparr>ps_path := attributeValue\<rparr> else st)
      else if attributeName = str ''expires'' then
        (if \<not> ps_hasMaxAge st \<and> attributeValue \<noteq> [] then
           (let parsed = dateParse attributeValue in
            if parsed \<noteq> NaN then st\<lparr>ps_expires := parsed\<rparr> else st)
         else st)
      else if attributeName = str ''max-age'' then
        (let parsedMaxAge = parseInt10 attributeValue in
         if parsedMaxAge \<noteq> NaN then st\<lparr>ps_maxAge := parsedMaxAge, ps_hasMaxAge := True\<rparr>
         else st)
      else if attributeName = str ''secure'' then st\<lparr>ps_secure := True\<rparr>
      else if attributeName = str ''httponly'' then st\<lparr>ps_httpOnly := True\<rparr>
      else if attributeName = str ''partitioned'' then st\<lparr>ps_partitioned := True\<rparr>
      else if attributeName = str ''samesite'' then
        (let lowerValue = toLowerCase attributeValue in
         if lowerValue = str ''strict'' then st\<lparr>ps_sameSite := Strict\<rparr>
         else if lowerValue = str ''lax'' then st\<lparr>ps_sameSite := Lax\<rparr>
         else if lowerValue = str ''none'' then st\<lparr>ps_sameSite := None'\<rparr>
         else st)
      else st)"

text \<open>The \<open>for\<close> loop over the attribute tokens.\<close>

definition parseAttributes :: "(jsstring \<Rightarrow> jsnum) \<Rightarrow> jsstring list \<Rightarrow> ParseState" where
  "parseAttributes dateParse attributes =
     foldl (\<lambda>st attribute. applyAttribute dateParse st (splitAttribute attribute))
       initialParseState attributes"

text \<open>The parts of the input: the cookie pair and the attribute tokens.\<close>

definition cookiePairOf :: "jsstring \<Rightarrow> jsstring" where
  "cookiePairOf cookieString =
     (case indexOf 0x3B cookieString of
        None \<Rightarrow> cookieString
      | Some firstSemicolonPos \<Rightarrow> substring cookieString 0 firstSemicolonPos)"

definition attributesOf :: "jsstring \<Rightarrow> jsstring list" where
  "attributesOf cookieString =
     (case indexOf 0x3B cookieString of
        None \<Rightarrow> []
      | Some firstSemicolonPos \<Rightarrow>
          split_str 0x3B (substringFrom cookieString (firstSemicolonPos + 1)))"

definition Cookie_parse :: "(jsstring \<Rightarrow> jsnum) \<Rightarrow> jsstring \<Rightarrow> error + Cookie" where
  "Cookie_parse dateParse cookieString =
     (if length cookieString < 2 then Inl (TypeError ''Invalid cookie string: empty'')
      else
        let cookiePair = cookiePairOf cookieString in
        case indexOf 0x3D cookiePair of
          None \<Rightarrow> Inl (TypeError ''Invalid cookie string: no '=' found'')
        | Some firstEqualsPos \<Rightarrow>
            let name = trim (substring cookiePair 0 firstEqualsPos) in
            if length name = 0 then
              Inl (TypeError ''Invalid cookie string: name cannot be empty'')
            else
              let value = trim (substringFrom cookiePair (firstEqualsPos + 1));
                  st = parseAttributes dateParse (attributesOf cookieString)
              in Cookie_create
                   \<lparr> o_name = name, o_value = value,
                     o_domain = Some (ps_domain st), o_path = Some (ps_path st),
                     o_expires = Some (ps_expires st), o_secure = Some (ps_secure st),
                     o_sameSite = Some (ps_sameSite st), o_httpOnly = Some (ps_httpOnly st),
                     o_maxAge = Some (ps_maxAge st), o_partitioned = Some (ps_partitioned st) \<rparr>)"

subsection \<open>Serialization\<close>

definition join_str :: "jsstring \<Rightarrow> jsstring list \<Rightarrow> jsstring" where
  "join_str sep parts =
     (case parts of [] \<Rightarrow> [] | p # ps \<Rightarrow> foldl (\<lambda>acc q. acc @ sep @ q) p ps)"

definition geNum :: "jsnum \<Rightarrow> int \<Rightarrow> bool" where
  "geNum x k =
     (case x of NaN \<Rightarrow> False | Num i \<Rightarrow> i \<ge> k | PosInfinity \<Rightarrow> True | NegInfinity \<Rightarrow> False)"

definition hasExpiry :: "Cookie \<Rightarrow> bool" where
  "hasExpiry c = (expires c \<noteq> EMPTY_EXPIRES_VALUE \<and> geNum (expires c) 1)"

definition sameSiteString :: "CookieSameSite \<Rightarrow> jsstring" where
  "sameSiteString v = (case v of Strict \<Rightarrow> str ''Strict'' | Lax \<Rightarrow> str ''Lax'' | None' \<Rightarrow> str ''None'')"

text \<open>
  The array \<open>parts\<close> of \<open>toString\<close>, after the first part (the pair). \<open>toUTCString\<close>
  is a parameter (the date formatting of the engine).
\<close>

definition attributeParts :: "(jsnum \<Rightarrow> jsstring) \<Rightarrow> Cookie \<Rightarrow> jsstring list" where
  "attributeParts toUTCString c =
     (if domain c \<noteq> [] then [str ''Domain='' @ domain c] else [])
     @ (if path c \<noteq> [] then [str ''Path='' @ path c] else [])
     @ (if hasExpiry c then [str ''Expires='' @ toUTCString (expires c)] else [])
     @ (if maxAge c \<noteq> NaN then [str ''Max-Age='' @ numToString (maxAge c)] else [])
     @ (if secure c then [str ''Secure''] else [])
     @ (if httpOnly c then [str ''HttpOnly''] else [])
     @ (if partitioned c then [str ''Partitioned''] else [])
     @ [str ''SameSite='' @ sameSiteString (sameSite c)]"

definition Cookie_toString :: "(jsnum \<Rightarrow> jsstring) \<Rightarrow> Cookie \<Rightarrow> error + jsstring" where
  "Cookie_toString toUTCString c =
     (case encodeURIComponent (cvalue c) of
        Inl e \<Rightarrow> Inl e
      | Inr encoded \<Rightarrow>
          Inr (join_str (str ''; '')
                 ((name c @ str ''='' @ encoded) # attributeParts toUTCString c)))"

subsection \<open>Instances of the engine's date functions for concrete inputs\<close>

text \<open>
  A \<open>Date.parse\<close> that knows one date string \<open>d\<close>, with time value \<open>t\<close>, and
  returns \<open>NaN\<close> for everything else. \<open>exampleDate\<close> is the date of the repository's
  own test; its time value is 1623233894000.
\<close>

definition dateParseAt :: "jsstring \<Rightarrow> int \<Rightarrow> jsstring \<Rightarrow> jsnum" where
  "dateParseAt d t s = (if s = d then Num t else NaN)"

text \<open>
  A \<open>toUTCString\<close> that knows one time value \<open>t\<close>, printed as \<open>d\<close>; every other
  number prints as an invalid date here.
\<close>

definition toUTCStringAt :: "int \<Rightarrow> jsstring \<Rightarrow> jsnum \<Rightarrow> jsstring" where
  "toUTCStringAt t d x = (if x = Num t then d else str ''Invalid Date'')"

definition exampleDate :: jsstring where
  "exampleDate = str ''Wed, 09 Jun 2021 10:18:14 GMT''"

section \<open>CookieMap\<close>

text \<open>A \<open>KeyValuePair\<close> \<open>{ key, value }\<close> is the pair \<open>(key, value)\<close>.\<close>

type_synonym KeyValuePair = "jsstring \<times> jsstring"

record CookieMap =
  originalCookies :: "KeyValuePair list"
  modifiedCookies :: "Cookie list"

text \<open>
  The three forms of \<open>CookieMapInput\<close>. A record is given by its entries
  (\<open>Object.entries\<close>), which never repeat a key; an array element is a list, since the
  source checks that its length is 2.
\<close>

datatype CookieMapInput =
  InputString jsstring
  | InputArray "jsstring list list"
  | InputRecord "(jsstring \<times> jsstring) list"

record CookieStoreDeleteOptions =
  d_name :: jsstring
  d_domain :: "jsstring option"
  d_path :: "jsstring option"

text \<open>The overloaded arguments of \<open>set\<close> and \<open>delete\<close>.\<close>

datatype NameOrCookie = SetName jsstring "jsstring option" | SetCookie Cookie

datatype NameOrOptions = DeleteName jsstring | DeleteOptions CookieStoreDeleteOptions

definition emptyCookieMap :: CookieMap where
  "emptyCookieMap = \<lparr> originalCookies = [], modifiedCookies = [] \<rparr>"

definition pushOriginal :: "CookieMap \<Rightarrow> KeyValuePair \<Rightarrow> CookieMap" where
  "pushOriginal m kv = m\<lparr>originalCookies := originalCookies m @ [kv]\<rparr>"

definition pushModified :: "CookieMap \<Rightarrow> Cookie \<Rightarrow> CookieMap" where
  "pushModified m cookie = m\<lparr>modifiedCookies := modifiedCookies m @ [cookie]\<rparr>"

subsection \<open>Construction\<close>

text \<open>
  The \<open>try\<close> block of \<open>parseFromCookieString\<close>: both decodings succeed, or the
  \<open>catch\<close> restores the raw name and value. The decoder is a parameter, instantiated
  with \<open>decodeURIComponent\<close> below.
\<close>

definition decodePair :: "(jsstring \<Rightarrow> jsstring option) \<Rightarrow> jsstring \<Rightarrow> jsstring \<Rightarrow> KeyValuePair" where
  "decodePair decode nameView valueView =
     (case decode nameView of
        None \<Rightarrow> (nameView, valueView)
      | Some n \<Rightarrow>
          (case decode valueView of
             None \<Rightarrow> (nameView, valueView)
           | Some v \<Rightarrow> (n, v)))"

text \<open>The body of the loop over the pairs.\<close>

definition parsePair :: "(jsstring \<Rightarrow> jsstring option) \<Rightarrow> bool \<Rightarrow> CookieMap \<Rightarrow> jsstring \<Rightarrow> CookieMap" where
  "parsePair decode hasPercentEncoded m pair =
     (case indexOf 0x3D pair of
        None \<Rightarrow> m
      | Some equalsPos \<Rightarrow>
          let nameView = trim (substring pair 0 equalsPos);
              valueView = trim (substringFrom pair (equalsPos + 1))
          in if nameView = [] then m
             else if hasPercentEncoded then pushOriginal m (decodePair decode nameView valueView)
             else pushOriginal m (nameView, valueView))"

definition parseFromCookieStringWith ::
  "(jsstring \<Rightarrow> jsstring option) \<Rightarrow> CookieMap \<Rightarrow> jsstring \<Rightarrow> CookieMap" where
  "parseFromCookieStringWith decode m cookieString =
     (if trim cookieString = [] then m
      else
        let pairs = split_str 0x3B cookieString;
            hasPercentEncoded = includes_str cookieString 0x25
        in foldl (parsePair decode hasPercentEncoded) m pairs)"

definition parseFromCookieString :: "CookieMap \<Rightarrow> jsstring \<Rightarrow> CookieMap" where
  "parseFromCookieString m cookieString =
     parseFromCookieStringWith decodeURIComponent m cookieString"

definition parseFromArray :: "CookieMap \<Rightarrow> jsstring list list \<Rightarrow> CookieMap" where
  "parseFromArray m pairs =
     foldl (\<lambda>m pair. if length pair = 2 then pushOriginal m (pair ! 0, pair ! 1) else m) m pairs"

definition parseFromRecord :: "CookieMap \<Rightarrow> (jsstring \<times> jsstring) list \<Rightarrow> CookieMap" where
  "parseFromRecord m entries = foldl (\<lambda>m kv. pushOriginal m (fst kv, snd kv)) m entries"

definition initialize :: "CookieMap \<Rightarrow> CookieMapInput \<Rightarrow> CookieMap" where
  "initialize m input =
     (case input of
        InputString s \<Rightarrow> parseFromCookieString m s
      | InputArray pairs \<Rightarrow> parseFromArray m pairs
      | InputRecord entries \<Rightarrow> parseFromRecord m entries)"

definition CookieMap_constructor :: "CookieMapInput option \<Rightarrow> CookieMap" where
  "CookieMap_constructor input =
     (case input of None \<Rightarrow> emptyCookieMap | Some i \<Rightarrow> initialize emptyCookieMap i)"

subsection \<open>Lookup\<close>

text \<open>\<open>Array.prototype.findIndex\<close>; \<open>None\<close> is the source's -1.\<close>

fun findIndex :: "('a \<Rightarrow> bool) \<Rightarrow> 'a list \<Rightarrow> nat option" where
  "findIndex P [] = None"
| "findIndex P (x # xs) = (if P x then Some 0 else map_option Suc (findIndex P xs))"

definition CookieMap_get :: "CookieMap \<Rightarrow> jsstring \<Rightarrow> jsstring option" where
  "CookieMap_get m n =
     (case findIndex (\<lambda>cookie. name cookie = n) (modifiedCookies m) of
        Some modifiedCookieIndex \<Rightarrow>
          (let cookie = modifiedCookies m ! modifiedCookieIndex in
           if cvalue cookie = [] then None else Some (cvalue cookie))
      | None \<Rightarrow>
          (case findIndex (\<lambda>cookie. fst cookie = n) (originalCookies m) of
             Some originalCookieIndex \<Rightarrow> Some (snd (originalCookies m ! originalCookieIndex))
           | None \<Rightarrow> None))"

definition CookieMap_getAll :: "CookieMap \<Rightarrow> KeyValuePair list" where
  "CookieMap_getAll m =
     map (\<lambda>cookie. (name cookie, cvalue cookie))
       (filter (\<lambda>cookie. cvalue cookie \<noteq> []) (modifiedCookies m))
     @ map (\<lambda>cookie. (fst cookie, snd cookie)) (originalCookies m)"

definition CookieMap_has :: "CookieMap \<Rightarrow> jsstring \<Rightarrow> bool" where
  "CookieMap_has m n = (CookieMap_get m n \<noteq> None)"

subsection \<open>Mutation\<close>

definition removeInternal :: "CookieMap \<Rightarrow> jsstring \<Rightarrow> CookieMap" where
  "removeInternal m n =
     \<lparr> originalCookies = filter (\<lambda>cookie. fst cookie \<noteq> n) (originalCookies m),
       modifiedCookies = filter (\<lambda>cookie. name cookie \<noteq> n) (modifiedCookies m) \<rparr>"

text \<open>
  \<open>set\<close>: with a name, the cookie is created first, so a rejected name leaves the
  collection as it was.
\<close>

definition CookieMap_set :: "CookieMap \<Rightarrow> NameOrCookie \<Rightarrow> error + CookieMap" where
  "CookieMap_set m nameOrCookie =
     (case nameOrCookie of
        SetName n None \<Rightarrow> Inl (Error ''Value is required when setting cookie by name'')
      | SetName n (Some v) \<Rightarrow>
          (case Cookie_create (nameValueOptions n v) of
             Inl e \<Rightarrow> Inl e
           | Inr cookie \<Rightarrow> Inr (pushModified (removeInternal m (name cookie)) cookie))
      | SetCookie cookie \<Rightarrow> Inr (pushModified (removeInternal m (name cookie)) cookie))"

text \<open>
  \<open>delete\<close> returns its result (or the error of \<open>Cookie.create\<close>) and the collection
  it leaves: \<open>removeInternal\<close> has already run when the delete marker is created.
\<close>

definition deleteMarkerOptions :: "jsstring \<Rightarrow> jsstring option \<Rightarrow> jsstring option \<Rightarrow> CookieOptions" where
  "deleteMarkerOptions n d p =
     \<lparr> o_name = n, o_value = [], o_domain = Some (orStr d []), o_path = Some (orStr p (str ''/'')),
       o_expires = Some (Num 1), o_secure = Some False, o_sameSite = Some Lax,
       o_httpOnly = Some False, o_maxAge = Some NaN, o_partitioned = Some False \<rparr>"

definition CookieMap_delete :: "CookieMap \<Rightarrow> NameOrOptions \<Rightarrow> (error + bool) \<times> CookieMap" where
  "CookieMap_delete m nameOrOptions =
     (let n = (case nameOrOptions of DeleteName s \<Rightarrow> s | DeleteOptions opts \<Rightarrow> d_name opts);
          d = (case nameOrOptions of DeleteName s \<Rightarrow> None | DeleteOptions opts \<Rightarrow> d_domain opts);
          p = (case nameOrOptions of DeleteName s \<Rightarrow> None | DeleteOptions opts \<Rightarrow> d_path opts);
          hadCookie = CookieMap_has m n;
          m' = removeInternal m n
      in case Cookie_create (deleteMarkerOptions n d p) of
           Inl e \<Rightarrow> (Inl e, m')
         | Inr deleteCookie \<Rightarrow> (Inr hadCookie, pushModified m' deleteCookie))"

definition CookieMap_clone :: "CookieMap \<Rightarrow> CookieMap" where
  "CookieMap_clone m =
     \<lparr> originalCookies = originalCookies m, modifiedCookies = modifiedCookies m \<rparr>"

definition CookieMap_clear :: "CookieMap \<Rightarrow> CookieMap" where
  "CookieMap_clear m = \<lparr> originalCookies = [], modifiedCookies = [] \<rparr>"

subsection \<open>Observation\<close>

definition CookieMap_size :: "CookieMap \<Rightarrow> nat" where
  "CookieMap_size m =
     length (filter (\<lambda>cookie. cvalue cookie \<noteq> []) (modifiedCookies m))
     + length (originalCookies m)"

text \<open>
  The result of \<open>toJSON\<close> is a plain object, a map from keys to values. \<open>key in result\<close>
  also holds for the properties every object inherits from \<open>Object.prototype\<close>, and an
  assignment to \<open>__proto__\<close> with a string value creates no property.
\<close>

definition objectPrototypeKeys :: "jsstring list" where
  "objectPrototypeKeys =
     map str [''constructor'', ''hasOwnProperty'', ''isPrototypeOf'', ''propertyIsEnumerable'',
              ''toLocaleString'', ''toString'', ''valueOf'', ''__proto__'',
              ''__defineGetter__'', ''__defineSetter__'', ''__lookupGetter__'',
              ''__lookupSetter__'']"

definition hasProperty :: "(jsstring \<rightharpoonup> jsstring) \<Rightarrow> jsstring \<Rightarrow> bool" where
  "hasProperty result k = (result k \<noteq> None \<or> k \<in> set objectPrototypeKeys)"

definition setProperty :: "(jsstring \<rightharpoonup> jsstring) \<Rightarrow> jsstring \<Rightarrow> jsstring \<Rightarrow> (jsstring \<rightharpoonup> jsstring)" where
  "setProperty result k v = (if k = str ''__proto__'' then result else result(k \<mapsto> v))"

definition CookieMap_toJSON :: "CookieMap \<Rightarrow> (jsstring \<rightharpoonup> jsstring)" where
  "CookieMap_toJSON m =
     (let fromModified =
            foldl (\<lambda>result cookie.
                     if cvalue cookie \<noteq> [] then setProperty result (name cookie) (cvalue cookie)
                     else result)
              Map.empty (modifiedCookies m)
      in foldl (\<lambda>result cookie.
                  if \<not> hasProperty result (fst cookie)
                  then setProperty result (fst cookie) (snd cookie) else result)
           fromModified (originalCookies m))"

definition CookieMap_getAllChanges :: "CookieMap \<Rightarrow> Cookie list" where
  "CookieMap_getAllChanges m = modifiedCookies m"

text \<open>The sequence the iterator yields, and its projections.\<close>

definition CookieMap_iterator :: "CookieMap \<Rightarrow> KeyValuePair list" where
  "CookieMap_iterator m =
     map (\<lambda>cookie. (name cookie, cvalue cookie))
       (filter (\<lambda>cookie. cvalue cookie \<noteq> []) (modifiedCookies m))
     @ map (\<lambda>cookie. (fst cookie, snd cookie)) (originalCookies m)"

definition CookieMap_entries :: "CookieMap \<Rightarrow> (jsstring \<times> jsstring) list" where
  "CookieMap_entries m = map (\<lambda>pair. (fst pair, snd pair)) (CookieMap_iterator m)"

definition CookieMap_keys :: "CookieMap \<Rightarrow> jsstring list" where
  "CookieMap_keys m = map fst (CookieMap_iterator m)"

definition CookieMap_values :: "CookieMap \<Rightarrow> jsstring list" where
  "CookieMap_values m = map snd (CookieMap_iterator m)"

subsection \<open>The delete marker\<close>

text \<open>
  The cookie that stands for a deletion: empty value, \<open>expires = 1\<close>, the given domain
  and path or their defaults, every flag false. \<open>delete\<close> is compared with it below.
\<close>

definition deleteMarker :: "jsstring \<Rightarrow> jsstring option \<Rightarrow> jsstring option \<Rightarrow> Cookie" where
  "deleteMarker n d p =
     \<lparr> name = n, cvalue = [], domain = orStr d [], path = orStr p (str ''/''),
       expires = Num 1, secure = False, sameSite = Lax, httpOnly = False, maxAge = NaN,
       partitioned = False \<rparr>"

subsection \<open>Reachable collections\<close>




section \<open>CookieMap objects on a heap\<close>

text \<open>
  For the claims about aliasing, the collections are objects: a \<open>CookieMap\<close> object holds
  two references to arrays, \<open>filter\<close> and the spread \<open>[...xs]\<close> allocate a new array,
  an assignment to a field replaces the reference, and \<open>push\<close> changes the array in
  place. Objects and arrays are addressed by numbers; \<open>KeyValuePair\<close> and \<open>Cookie\<close>
  values are immutable (no method writes to one) and are stored by value.
\<close>

record Heap =
  keyValueArrays :: "nat \<Rightarrow> KeyValuePair list"
  cookieArrays :: "nat \<Rightarrow> Cookie list"
  originalCookiesRef :: "nat \<Rightarrow> nat"
  modifiedCookiesRef :: "nat \<Rightarrow> nat"
  nextArray :: nat
  nextObject :: nat

definition emptyHeap :: Heap where
  "emptyHeap =
     \<lparr> keyValueArrays = (\<lambda>_. []), cookieArrays = (\<lambda>_. []), originalCookiesRef = (\<lambda>_. 0),
       modifiedCookiesRef = (\<lambda>_. 0), nextArray = 0, nextObject = 0 \<rparr>"

text \<open>
  The collection an object reference denotes.
\<close>

definition readMap :: "Heap \<Rightarrow> nat \<Rightarrow> CookieMap" where
  "readMap h this =
     \<lparr> originalCookies = keyValueArrays h (originalCookiesRef h this),
       modifiedCookies = cookieArrays h (modifiedCookiesRef h this) \<rparr>"

text \<open>
  \<open>new CookieMap(input)\<close>: two fresh arrays and a fresh object; the pushes of
  \<open>initialize\<close> all go to the fresh array.
\<close>

definition heap_new :: "Heap \<Rightarrow> CookieMapInput option \<Rightarrow> nat \<times> Heap" where
  "heap_new h input =
     (let a1 = nextArray h; a2 = Suc (nextArray h); this = nextObject h in
      (this,
       h\<lparr> keyValueArrays := (keyValueArrays h)(a1 := originalCookies (CookieMap_constructor input)),
          cookieArrays := (cookieArrays h)(a2 := modifiedCookies (CookieMap_constructor input)),
          originalCookiesRef := (originalCookiesRef h)(this := a1),
          modifiedCookiesRef := (modifiedCookiesRef h)(this := a2),
          nextArray := Suc a2,
          nextObject := Suc this \<rparr>))"

definition heap_removeInternal :: "Heap \<Rightarrow> nat \<Rightarrow> jsstring \<Rightarrow> Heap" where
  "heap_removeInternal h this n =
     (let a1 = nextArray h; a2 = Suc (nextArray h) in
      h\<lparr> keyValueArrays :=
           (keyValueArrays h)
             (a1 := filter (\<lambda>cookie. fst cookie \<noteq> n) (keyValueArrays h (originalCookiesRef h this))),
         cookieArrays :=
           (cookieArrays h)
             (a2 := filter (\<lambda>cookie. name cookie \<noteq> n) (cookieArrays h (modifiedCookiesRef h this))),
         originalCookiesRef := (originalCookiesRef h)(this := a1),
         modifiedCookiesRef := (modifiedCookiesRef h)(this := a2),
         nextArray := Suc a2 \<rparr>)"

definition heap_pushModified :: "Heap \<Rightarrow> nat \<Rightarrow> Cookie \<Rightarrow> Heap" where
  "heap_pushModified h this cookie =
     h\<lparr> cookieArrays :=
          (cookieArrays h)
            (modifiedCookiesRef h this := cookieArrays h (modifiedCookiesRef h this) @ [cookie]) \<rparr>"

definition heap_set :: "Heap \<Rightarrow> nat \<Rightarrow> NameOrCookie \<Rightarrow> (error + unit) \<times> Heap" where
  "heap_set h this nameOrCookie =
     (case nameOrCookie of
        SetName n None \<Rightarrow> (Inl (Error ''Value is required when setting cookie by name''), h)
      | SetName n (Some v) \<Rightarrow>
          (case Cookie_create (nameValueOptions n v) of
             Inl e \<Rightarrow> (Inl e, h)
           | Inr cookie \<Rightarrow>
               (Inr (), heap_pushModified (heap_removeInternal h this (name cookie)) this cookie))
      | SetCookie cookie \<Rightarrow>
          (Inr (), heap_pushModified (heap_removeInternal h this (name cookie)) this cookie))"

definition heap_delete :: "Heap \<Rightarrow> nat \<Rightarrow> NameOrOptions \<Rightarrow> (error + bool) \<times> Heap" where
  "heap_delete h this nameOrOptions =
     (let n = (case nameOrOptions of DeleteName s \<Rightarrow> s | DeleteOptions opts \<Rightarrow> d_name opts);
          d = (case nameOrOptions of DeleteName s \<Rightarrow> None | DeleteOptions opts \<Rightarrow> d_domain opts);
          p = (case nameOrOptions of DeleteName s \<Rightarrow> None | DeleteOptions opts \<Rightarrow> d_path opts);
          hadCookie = CookieMap_has (readMap h this) n;
          h' = heap_removeInternal h this n
      in case Cookie_create (deleteMarkerOptions n d p) of
           Inl e \<Rightarrow> (Inl e, h')
         | Inr deleteCookie \<Rightarrow> (Inr hadCookie, heap_pushModified h' this deleteCookie))"

text \<open>
  \<open>clone\<close>: a new empty \<open>CookieMap\<close>, whose fields are then assigned fresh copies of
  the arrays of \<open>this\<close>.
\<close>

definition heap_clone :: "Heap \<Rightarrow> nat \<Rightarrow> nat \<times> Heap" where
  "heap_clone h this =
     (let clone = fst (heap_new h None);
          h1 = snd (heap_new h None);
          a1 = nextArray h1; a2 = Suc (nextArray h1)
      in (clone,
          h1\<lparr> keyValueArrays := (keyValueArrays h1)(a1 := keyValueArrays h1 (originalCookiesRef h1 this)),
              cookieArrays := (cookieArrays h1)(a2 := cookieArrays h1 (modifiedCookiesRef h1 this)),
              originalCookiesRef := (originalCookiesRef h1)(clone := a1),
              modifiedCookiesRef := (modifiedCookiesRef h1)(clone := a2),
              nextArray := Suc a2 \<rparr>))"

definition heap_clear :: "Heap \<Rightarrow> nat \<Rightarrow> Heap" where
  "heap_clear h this =
     (let a1 = nextArray h; a2 = Suc (nextArray h) in
      h\<lparr> keyValueArrays := (keyValueArrays h)(a1 := []),
         cookieArrays := (cookieArrays h)(a2 := []),
         originalCookiesRef := (originalCookiesRef h)(this := a1),
         modifiedCookiesRef := (modifiedCookiesRef h)(this := a2),
         nextArray := Suc a2 \<rparr>)"

text \<open>
  The mutating methods, and a sequence of calls on one object.
\<close>

datatype Mutation = DoSet NameOrCookie | DoDelete NameOrOptions | DoClear

definition applyMutation :: "Heap \<Rightarrow> nat \<Rightarrow> Mutation \<Rightarrow> Heap" where
  "applyMutation h this mut =
     (case mut of
        DoSet x \<Rightarrow> snd (heap_set h this x)
      | DoDelete y \<Rightarrow> snd (heap_delete h this y)
      | DoClear \<Rightarrow> heap_clear h this)"

definition runMutations :: "Heap \<Rightarrow> nat \<Rightarrow> Mutation list \<Rightarrow> Heap" where
  "runMutations h this muts = foldl (\<lambda>h mut. applyMutation h this mut) h muts"

text \<open>
  The heaps a program can build with the public interface.
\<close>

inductive reachableHeap :: "Heap \<Rightarrow> bool" where
  start: "reachableHeap emptyHeap"
| constructed: "reachableHeap h \<Longrightarrow> reachableHeap (snd (heap_new h input))"
| mutated: "reachableHeap h \<Longrightarrow> this < nextObject h \<Longrightarrow> reachableHeap (applyMutation h this mut)"
| cloned: "reachableHeap h \<Longrightarrow> this < nextObject h \<Longrightarrow> reachableHeap (snd (heap_clone h this))"

text \<open>
  No two objects share an array, and every reference is to an allocated array.
\<close>

definition separate :: "Heap \<Rightarrow> bool" where
  "separate h =
     ((\<forall>p < nextObject h. originalCookiesRef h p < nextArray h \<and> modifiedCookiesRef h p < nextArray h)
      \<and> (\<forall>p < nextObject h. \<forall>q < nextObject h.
            p \<noteq> q \<longrightarrow> originalCookiesRef h p \<noteq> originalCookiesRef h q
                       \<and> modifiedCookiesRef h p \<noteq> modifiedCookiesRef h q))"

text \<open>
  Everything a caller can observe of a collection: \<open>get\<close>, \<open>getAll\<close>, \<open>toJSON\<close>,
  \<open>getAllChanges\<close>, \<open>size\<close> and the iteration.
\<close>

definition observe ::
  "CookieMap \<Rightarrow> (jsstring \<Rightarrow> jsstring option) \<times> KeyValuePair list \<times> (jsstring \<rightharpoonup> jsstring)
     \<times> Cookie list \<times> nat \<times> KeyValuePair list" where
  "observe m =
     (CookieMap_get m, CookieMap_getAll m, CookieMap_toJSON m, CookieMap_getAllChanges m,
      CookieMap_size m, CookieMap_iterator m)"

text \<open>
  What one mutating call makes of a collection, as a function of the collection alone:
  a \<open>set\<close> that throws leaves it as it was.
\<close>

definition pureMutation :: "CookieMap \<Rightarrow> Mutation \<Rightarrow> CookieMap" where
  "pureMutation m mut =
     (case mut of
        DoSet x \<Rightarrow> (case CookieMap_set m x of Inl e \<Rightarrow> m | Inr m' \<Rightarrow> m')
      | DoDelete y \<Rightarrow> snd (CookieMap_delete m y)
      | DoClear \<Rightarrow> CookieMap_clear m)"

text \<open>
  A sequence of calls on any objects of the heap, in any order: each call names the
  object it is made on.
\<close>

definition runCalls :: "Heap \<Rightarrow> (nat \<times> Mutation) list \<Rightarrow> Heap" where
  "runCalls h calls = foldl (\<lambda>h call. applyMutation h (fst call) (snd call)) h calls"

text \<open>
  An in-place write to the two arrays an object references. No method of the class
  writes in place except \<open>push\<close>; the write is here to tell apart two objects that
  reference the same array from two objects that reference equal arrays.
\<close>

definition writeArrays :: "Heap \<Rightarrow> nat \<Rightarrow> KeyValuePair list \<Rightarrow> Cookie list \<Rightarrow> Heap" where
  "writeArrays h this xs ys =
     h\<lparr> keyValueArrays := (keyValueArrays h)(originalCookiesRef h this := xs),
        cookieArrays := (cookieArrays h)(modifiedCookiesRef h this := ys) \<rparr>"

section \<open>Properties of Cookie.parse\<close>

subsection \<open>The checks of the constructor\<close>

text \<open>The empty path and the empty domain are valid, so the guard is the check itself.\<close>

lemma failsCheck_path: "failsCheck isValidCookiePath (Some p) = (\<not> isValidCookiePath p)"
  by (cases p) (simp_all add: failsCheck_def isValidCookiePath_def)

lemma failsCheck_domain: "failsCheck isValidCookieDomain (Some d) = (\<not> isValidCookieDomain d)"
  by (cases d) (simp_all add: failsCheck_def isValidCookieDomain_def)

subsection \<open>Max-Age and Expires\<close>

lemma attribute_names_distinct:
  "str ''max-age'' \<noteq> str ''expires''" "str ''max-age'' \<noteq> str ''domain''"
  "str ''max-age'' \<noteq> str ''path''" "str ''expires'' \<noteq> str ''domain''"
  "str ''expires'' \<noteq> str ''path''"
  by (simp_all add: str_def)

lemma applyAttribute_locked:
  "ps_hasMaxAge st \<Longrightarrow>
   ps_hasMaxAge (applyAttribute dp st nv) \<and> ps_expires (applyAttribute dp st nv) = ps_expires st"
  by (simp add: applyAttribute_def Let_def split: jsnum.splits)

lemma foldl_locked:
  "ps_hasMaxAge st \<Longrightarrow>
   ps_expires (foldl (\<lambda>st a. applyAttribute dp st (splitAttribute a)) st as) = ps_expires st"
  by (induction as arbitrary: st) (simp_all add: applyAttribute_locked)

lemma applyAttribute_not_expires:
  "fst nv \<noteq> str ''expires'' \<Longrightarrow> ps_expires (applyAttribute dp st nv) = ps_expires st"
  by (simp add: applyAttribute_def Let_def split: jsnum.splits)

lemma applyAttribute_not_max_age:
  "fst nv \<noteq> str ''max-age'' \<Longrightarrow>
   ps_maxAge (applyAttribute dp st nv) = ps_maxAge st
   \<and> ps_hasMaxAge (applyAttribute dp st nv) = ps_hasMaxAge st"
  by (simp add: applyAttribute_def Let_def split: jsnum.splits)

lemma foldl_not_expires:
  "\<forall>a\<in>set as. fst (splitAttribute a) \<noteq> str ''expires'' \<Longrightarrow>
   ps_expires (foldl (\<lambda>st a. applyAttribute dp st (splitAttribute a)) st as) = ps_expires st"
  by (induction as arbitrary: st) (simp_all add: applyAttribute_not_expires)

lemma foldl_not_max_age:
  "\<forall>a\<in>set as. fst (splitAttribute a) \<noteq> str ''max-age'' \<Longrightarrow>
   ps_maxAge (foldl (\<lambda>st a. applyAttribute dp st (splitAttribute a)) st as) = ps_maxAge st
   \<and> ps_hasMaxAge (foldl (\<lambda>st a. applyAttribute dp st (splitAttribute a)) st as) = ps_hasMaxAge st"
  by (induction as arbitrary: st) (simp_all add: applyAttribute_not_max_age)

lemma applyAttribute_max_age:
  "fst nv = str ''max-age'' \<Longrightarrow> parseInt10 (snd nv) = Num n \<Longrightarrow>
   applyAttribute dp st nv = st\<lparr>ps_maxAge := Num n, ps_hasMaxAge := True\<rparr>"
  by (simp add: applyAttribute_def Let_def attribute_names_distinct)

lemma applyAttribute_expires:
  "fst nv = str ''expires'' \<Longrightarrow> \<not> ps_hasMaxAge st \<Longrightarrow> snd nv \<noteq> [] \<Longrightarrow> dp (snd nv) = Num d \<Longrightarrow>
   applyAttribute dp st nv = st\<lparr>ps_expires := Num d\<rparr>"
  by (simp add: applyAttribute_def Let_def attribute_names_distinct)

lemma Cookie_parse_fields:
  "Cookie_parse dp s = Inr c \<Longrightarrow>
   maxAge c = orNum (Some (ps_maxAge (parseAttributes dp (attributesOf s)))) NaN
   \<and> expires c = orNum (Some (ps_expires (parseAttributes dp (attributesOf s)))) EMPTY_EXPIRES_VALUE
   \<and> domain c = ps_domain (parseAttributes dp (attributesOf s))
   \<and> path c = orStr (Some (ps_path (parseAttributes dp (attributesOf s)))) (str ''/'')"
  by (auto simp: Cookie_parse_def Cookie_create_def Cookie_constructor_def Let_def orStr_def
      split: if_splits option.splits)

lemma applyAttribute_max_age_parsed:
  "fst nv = str ''max-age'' \<Longrightarrow> parseInt10 (snd nv) \<noteq> NaN \<Longrightarrow>
   ps_hasMaxAge (applyAttribute dp st nv) \<and> ps_expires (applyAttribute dp st nv) = ps_expires st"
  by (simp add: applyAttribute_def Let_def attribute_names_distinct)

text \<open>
  Claim C1, as the code has it. The claim says that a string with both \<open>Max-Age=60\<close>
  and a parseable \<open>Expires\<close> always parses to \<open>maxAge = 60\<close> and \<open>expires = -1\<close>,
  in either token order. The flag \<open>hasMaxAge\<close> is only read by later \<open>Expires\<close>
  tokens, and the \<open>max-age\<close> case never resets \<open>expires\<close>. So, for a successful parse
  in which the last token named \<open>Max-Age\<close> has the value 60, \<open>maxAge\<close> is 60, and:
  \<^item> \<open>expires\<close> is -1 when no \<open>Expires\<close> token comes before that token;
  \<^item> \<open>expires\<close> is -1 when, before that token, a \<open>Max-Age\<close> token with an integer
    value comes before every \<open>Expires\<close> token;
  \<^item> when an \<open>Expires\<close> token comes before that token, after no \<open>Max-Age\<close> token and
    with no other \<open>Expires\<close> token between the two, and its value parses to the date
    \<open>d\<close>, then \<open>expires\<close> is \<open>d\<close> (or -1 when \<open>d\<close> is 0, which the constructor
    takes for unset).
\<close>

theorem C1_max_age_precedence:
  assumes parsed: "Cookie_parse dateParse s = Inr c"
    and tokens: "attributesOf s = pre @ [t] @ post"
    and t_name: "fst (splitAttribute t) = str ''max-age''"
    and t_value: "parseInt10 (snd (splitAttribute t)) = Num 60"
    and post_free: "\<forall>a\<in>set post. fst (splitAttribute a) \<noteq> str ''max-age''"
  shows "maxAge c = Num 60
    \<and> ((\<forall>a\<in>set pre. fst (splitAttribute a) \<noteq> str ''expires'') \<longrightarrow> expires c = Num (- 1))
    \<and> (\<forall>pre1 m pre2.
          pre = pre1 @ [m] @ pre2
          \<and> (\<forall>a\<in>set pre1. fst (splitAttribute a) \<noteq> str ''expires'')
          \<and> fst (splitAttribute m) = str ''max-age'' \<and> parseInt10 (snd (splitAttribute m)) \<noteq> NaN
          \<longrightarrow> expires c = Num (- 1))
    \<and> (\<forall>pre1 e pre2 d.
          pre = pre1 @ [e] @ pre2
          \<and> (\<forall>a\<in>set pre1. fst (splitAttribute a) \<noteq> str ''max-age'')
          \<and> (\<forall>a\<in>set pre2. fst (splitAttribute a) \<noteq> str ''expires'')
          \<and> fst (splitAttribute e) = str ''expires'' \<and> snd (splitAttribute e) \<noteq> []
          \<and> dateParse (snd (splitAttribute e)) = Num d
          \<longrightarrow> expires c = (if d = 0 then Num (- 1) else Num d))"
proof -
  let ?step = "\<lambda>st a. applyAttribute dateParse st (splitAttribute a)"
  define st0 where "st0 = foldl ?step initialParseState pre"
  define st1 where "st1 = ?step st0 t"
  define st2 where "st2 = foldl ?step st1 post"
  have final: "parseAttributes dateParse (attributesOf s) = st2"
    by (simp add: parseAttributes_def tokens st0_def st1_def st2_def)
  have st1: "st1 = st0\<lparr>ps_maxAge := Num 60, ps_hasMaxAge := True\<rparr>"
    unfolding st1_def by (rule applyAttribute_max_age [OF t_name t_value])
  have exp2: "ps_expires st2 = ps_expires st0"
    unfolding st2_def using foldl_locked [of st1 dateParse post] by (simp add: st1)
  have age2: "ps_maxAge st2 = Num 60"
    unfolding st2_def using foldl_not_max_age [OF post_free, of dateParse st1] by (simp add: st1)
  from Cookie_parse_fields [OF parsed]
  have c_age: "maxAge c = orNum (Some (ps_maxAge st2)) NaN"
    and c_exp: "expires c = orNum (Some (ps_expires st0)) EMPTY_EXPIRES_VALUE"
    by (simp_all add: final exp2)
  have A: "maxAge c = Num 60"
    by (simp add: c_age age2 orNum_def)
  have unset: "expires c = Num (- 1)" if "ps_expires st0 = ps_expires initialParseState"
    using that by (simp add: c_exp initialParseState_def EMPTY_EXPIRES_VALUE_def orNum_def)
  have B: "expires c = Num (- 1)" if "\<forall>a\<in>set pre. fst (splitAttribute a) \<noteq> str ''expires''"
  proof -
    have "ps_expires st0 = ps_expires initialParseState"
      unfolding st0_def by (rule foldl_not_expires [OF that])
    then show ?thesis by (rule unset)
  qed
  have C: "expires c = Num (- 1)"
    if pre: "pre = pre1 @ [m] @ pre2"
      and p1: "\<forall>a\<in>set pre1. fst (splitAttribute a) \<noteq> str ''expires''"
      and m_name: "fst (splitAttribute m) = str ''max-age''"
      and m_value: "parseInt10 (snd (splitAttribute m)) \<noteq> NaN"
    for pre1 m pre2
  proof -
    define sa where "sa = foldl ?step initialParseState pre1"
    define sb where "sb = ?step sa m"
    have a: "ps_expires sa = ps_expires initialParseState"
      unfolding sa_def by (rule foldl_not_expires [OF p1])
    have b: "ps_hasMaxAge sb \<and> ps_expires sb = ps_expires sa"
      unfolding sb_def by (rule applyAttribute_max_age_parsed [OF m_name m_value])
    have "st0 = foldl ?step sb pre2"
      by (simp add: st0_def pre sa_def sb_def)
    then have "ps_expires st0 = ps_expires sb"
      using foldl_locked [of sb dateParse pre2] b by simp
    with a b show ?thesis by (simp add: unset)
  qed
  have D: "expires c = (if d = 0 then Num (- 1) else Num d)"
    if pre: "pre = pre1 @ [e] @ pre2"
      and p1: "\<forall>a\<in>set pre1. fst (splitAttribute a) \<noteq> str ''max-age''"
      and p2: "\<forall>a\<in>set pre2. fst (splitAttribute a) \<noteq> str ''expires''"
      and e_name: "fst (splitAttribute e) = str ''expires''"
      and e_value: "snd (splitAttribute e) \<noteq> []"
      and e_date: "dateParse (snd (splitAttribute e)) = Num d"
    for pre1 e pre2 d
  proof -
    define sa where "sa = foldl ?step initialParseState pre1"
    have "ps_hasMaxAge sa = ps_hasMaxAge initialParseState"
      unfolding sa_def using foldl_not_max_age [OF p1] by blast
    then have unlocked: "\<not> ps_hasMaxAge sa"
      by (simp add: initialParseState_def)
    have "?step sa e = sa\<lparr>ps_expires := Num d\<rparr>"
      using applyAttribute_expires [of "splitAttribute e" sa dateParse d] e_name unlocked e_value e_date
      by simp
    moreover have "st0 = foldl ?step (?step sa e) pre2"
      by (simp add: st0_def pre sa_def)
    ultimately have "ps_expires st0 = Num d"
      using foldl_not_expires [OF p2, of dateParse "sa\<lparr>ps_expires := Num d\<rparr>"] by simp
    then show ?thesis
      by (simp add: c_exp orNum_def EMPTY_EXPIRES_VALUE_def)
  qed
  from A B C D show ?thesis by blast
qed

text \<open>
  The claim fails where \<open>Expires\<close> comes first: the parsed cookie keeps the date.
\<close>

theorem C1_expires_first_counterexample:
  "Cookie_parse (dateParseAt exampleDate 1623233894000)
     (str ''n=v; Expires=Wed, 09 Jun 2021 10:18:14 GMT; Max-Age=60'')
   = Inr \<lparr> name = str ''n'', cvalue = str ''v'', domain = [], path = str ''/'',
           expires = Num 1623233894000, secure = False, sameSite = Lax, httpOnly = False,
           maxAge = Num 60, partitioned = False \<rparr>"
  by code_simp

text \<open>
  \<open>Max-Age\<close> first, \<open>Expires\<close> first, and an \<open>Expires\<close> between two \<open>Max-Age\<close>
  tokens.
\<close>

theorem C1_max_age_precedence_witness:
  "Cookie_parse (dateParseAt exampleDate 1623233894000)
     (str ''n=v; Max-Age=60; Expires=Wed, 09 Jun 2021 10:18:14 GMT'')
   = Inr \<lparr> name = str ''n'', cvalue = str ''v'', domain = [], path = str ''/'',
           expires = Num (- 1), secure = False, sameSite = Lax, httpOnly = False,
           maxAge = Num 60, partitioned = False \<rparr>
   \<and> maxAge \<lparr> name = str ''n'', cvalue = str ''v'', domain = [], path = str ''/'',
           expires = Num (- 1), secure = False, sameSite = Lax, httpOnly = False,
           maxAge = Num 60, partitioned = False \<rparr> = Num 60
   \<and> Cookie_parse (dateParseAt exampleDate 1623233894000)
     (str ''n=v; Expires=Wed, 09 Jun 2021 10:18:14 GMT; Max-Age=60'')
   = Inr \<lparr> name = str ''n'', cvalue = str ''v'', domain = [], path = str ''/'',
           expires = Num 1623233894000, secure = False, sameSite = Lax, httpOnly = False,
           maxAge = Num 60, partitioned = False \<rparr>
   \<and> Cookie_parse (dateParseAt exampleDate 1623233894000)
     (str ''n=v; Max-Age=5; Expires=Wed, 09 Jun 2021 10:18:14 GMT; Max-Age=60'')
   = Inr \<lparr> name = str ''n'', cvalue = str ''v'', domain = [], path = str ''/'',
           expires = Num (- 1), secure = False, sameSite = Lax, httpOnly = False,
           maxAge = Num 60, partitioned = False \<rparr>"
proof -
  let ?dp = "dateParseAt exampleDate 1623233894000"
  let ?s1 = "str ''n=v; Max-Age=60; Expires=Wed, 09 Jun 2021 10:18:14 GMT''"
  let ?s2 = "str ''n=v; Expires=Wed, 09 Jun 2021 10:18:14 GMT; Max-Age=60''"
  let ?s3 = "str ''n=v; Max-Age=5; Expires=Wed, 09 Jun 2021 10:18:14 GMT; Max-Age=60''"
  let ?m = "str '' Max-Age=60''"
  let ?m5 = "str '' Max-Age=5''"
  let ?e = "str '' Expires=Wed, 09 Jun 2021 10:18:14 GMT''"
  let ?c1 = "\<lparr> name = str ''n'', cvalue = str ''v'', domain = [], path = str ''/'',
           expires = Num (- 1), secure = False, sameSite = Lax, httpOnly = False,
           maxAge = Num 60, partitioned = False \<rparr>"
  let ?c2 = "\<lparr> name = str ''n'', cvalue = str ''v'', domain = [], path = str ''/'',
           expires = Num 1623233894000, secure = False, sameSite = Lax, httpOnly = False,
           maxAge = Num 60, partitioned = False \<rparr>"
  have p1: "Cookie_parse ?dp ?s1 = Inr ?c1" by code_simp
  have p2: "Cookie_parse ?dp ?s2 = Inr ?c2" by code_simp
  have p3: "\<exists>c. Cookie_parse ?dp ?s3 = Inr c"
  proof -
    have "Cookie_parse ?dp ?s3 = Inr ?c1" by code_simp
    then show ?thesis by blast
  qed
  have tok1: "attributesOf ?s1 = [] @ [?m] @ [?e]" by code_simp
  have tok2: "attributesOf ?s2 = [?e] @ [?m] @ []" by code_simp
  have tok3: "attributesOf ?s3 = [?m5, ?e] @ [?m] @ []" by code_simp
  have m_name: "fst (splitAttribute ?m) = str ''max-age''" by code_simp
  have m_value: "parseInt10 (snd (splitAttribute ?m)) = Num 60" by code_simp
  have m5_name: "fst (splitAttribute ?m5) = str ''max-age''" by code_simp
  have m5_value: "parseInt10 (snd (splitAttribute ?m5)) \<noteq> NaN" by code_simp
  have e_name: "fst (splitAttribute ?e) = str ''expires''" by code_simp
  have e_value: "snd (splitAttribute ?e) \<noteq> []" by code_simp
  have e_date: "?dp (snd (splitAttribute ?e)) = Num 1623233894000" by code_simp
  have free1: "\<forall>a\<in>set [?e]. fst (splitAttribute a) \<noteq> str ''max-age''"
    using e_name attribute_names_distinct(1) by simp
  have free2: "\<forall>a\<in>set []. fst (splitAttribute a) \<noteq> str ''max-age''" by simp
  have "maxAge ?c1 = Num 60 \<and> expires ?c1 = Num (- 1)"
    using C1_max_age_precedence [OF p1 tok1 m_name m_value free1] by simp
  moreover have "expires ?c2 = Num 1623233894000"
  proof -
    have "[?e] = [] @ [?e] @ []
          \<and> (\<forall>a\<in>set []. fst (splitAttribute a) \<noteq> str ''max-age'')
          \<and> (\<forall>a\<in>set []. fst (splitAttribute a) \<noteq> str ''expires'')
          \<and> fst (splitAttribute ?e) = str ''expires'' \<and> snd (splitAttribute ?e) \<noteq> []
          \<and> ?dp (snd (splitAttribute ?e)) = Num 1623233894000"
      using e_name e_value e_date by simp
    with C1_max_age_precedence [OF p2 tok2 m_name m_value free2]
    have "expires ?c2 = (if (1623233894000::int) = 0 then Num (- 1) else Num 1623233894000)"
      by blast
    then show ?thesis by simp
  qed
  moreover have "Cookie_parse ?dp ?s3 = Inr ?c1"
  proof -
    from p3 obtain c where c: "Cookie_parse ?dp ?s3 = Inr c" by blast
    have split3: "[?m5, ?e] = [] @ [?m5] @ [?e]
          \<and> (\<forall>a\<in>set []. fst (splitAttribute a) \<noteq> str ''expires'')
          \<and> fst (splitAttribute ?m5) = str ''max-age'' \<and> parseInt10 (snd (splitAttribute ?m5)) \<noteq> NaN"
      using m5_name m5_value by simp
    from C1_max_age_precedence [OF c tok3 m_name m_value free2] split3
    have "maxAge c = Num 60 \<and> expires c = Num (- 1)"
      by blast
    moreover have "Cookie_parse ?dp ?s3 = Inr ?c1" by code_simp
    ultimately show ?thesis by simp
  qed
  ultimately show ?thesis using p1 p2 by simp
qed

subsection \<open>When parse throws\<close>

text \<open>
  Claim C6. \<open>Cookie.parse\<close> throws exactly when the input is shorter than two code
  units, or the cookie pair (the part before the first \<open>;\<close>) has no \<open>=\<close>, or the
  trimmed name before the first \<open>=\<close> is empty or fails the name check of the
  constructor, or the path or the domain the attribute loop ends with fails its check.
  For every other input it returns a cookie. The error is the result of the call:
  nothing inside \<open>parse\<close> catches it.
\<close>

theorem C6_parse_throws_iff:
  "((\<exists>e. Cookie_parse dateParse s = Inl e) \<longleftrightarrow>
      length s < 2
      \<or> indexOf 0x3D (cookiePairOf s) = None
      \<or> (\<exists>i. indexOf 0x3D (cookiePairOf s) = Some i
            \<and> (trim (substring (cookiePairOf s) 0 i) = []
               \<or> \<not> isValidCookieName (trim (substring (cookiePairOf s) 0 i))))
      \<or> \<not> isValidCookiePath (ps_path (parseAttributes dateParse (attributesOf s)))
      \<or> \<not> isValidCookieDomain (ps_domain (parseAttributes dateParse (attributesOf s))))
   \<and> ((\<exists>c. Cookie_parse dateParse s = Inr c) \<longleftrightarrow> \<not> (\<exists>e. Cookie_parse dateParse s = Inl e))"
proof -
  have total: "(\<exists>c. Cookie_parse dateParse s = Inr c) \<longleftrightarrow> \<not> (\<exists>e. Cookie_parse dateParse s = Inl e)"
    by (cases "Cookie_parse dateParse s") simp_all
  have throws: "(\<exists>e. Cookie_parse dateParse s = Inl e) \<longleftrightarrow>
      length s < 2
      \<or> indexOf 0x3D (cookiePairOf s) = None
      \<or> (\<exists>i. indexOf 0x3D (cookiePairOf s) = Some i
            \<and> (trim (substring (cookiePairOf s) 0 i) = []
               \<or> \<not> isValidCookieName (trim (substring (cookiePairOf s) 0 i))))
      \<or> \<not> isValidCookiePath (ps_path (parseAttributes dateParse (attributesOf s)))
      \<or> \<not> isValidCookieDomain (ps_domain (parseAttributes dateParse (attributesOf s)))"
  proof (cases "length s < 2")
    case True
    then show ?thesis by (simp add: Cookie_parse_def)
  next
    case long: False
    show ?thesis
    proof (cases "indexOf 0x3D (cookiePairOf s)")
      case None
      then show ?thesis using long by (simp add: Cookie_parse_def Let_def)
    next
      case (Some i)
      show ?thesis
      proof (cases "trim (substring (cookiePairOf s) 0 i) = []")
        case True
        then show ?thesis using long Some by (simp add: Cookie_parse_def Let_def)
      next
        case False
        then show ?thesis using long Some
          by (simp add: Cookie_parse_def Let_def Cookie_create_def Cookie_constructor_def
              failsCheck_path failsCheck_domain)
      qed
    qed
  qed
  from throws total show ?thesis by blast
qed


text \<open>
  An empty name and an invalid path throw; a well-formed string parses.
\<close>

theorem C6_parse_throws_iff_witness:
  "(\<exists>e. Cookie_parse (dateParseAt exampleDate 1623233894000) (str ''=value'') = Inl e)
   \<and> (\<exists>e. Cookie_parse (dateParseAt exampleDate 1623233894000) (str ''a=b; Path=/<'') = Inl e)
   \<and> (\<exists>c. Cookie_parse (dateParseAt exampleDate 1623233894000) (str ''name=value; Domain=Example.COM'') = Inr c)"
proof -
  let ?dp = "dateParseAt exampleDate 1623233894000"
  have a: "indexOf 0x3D (cookiePairOf (str ''=value'')) = Some 0
           \<and> trim (substring (cookiePairOf (str ''=value'')) 0 0) = []"
    by code_simp
  have A: "\<exists>e. Cookie_parse ?dp (str ''=value'') = Inl e"
    using C6_parse_throws_iff [of ?dp "str ''=value''"] a by blast
  have b: "\<not> isValidCookiePath (ps_path (parseAttributes ?dp (attributesOf (str ''a=b; Path=/<''))))"
    by code_simp
  have B: "\<exists>e. Cookie_parse ?dp (str ''a=b; Path=/<'') = Inl e"
    using C6_parse_throws_iff [of ?dp "str ''a=b; Path=/<''"] b by blast
  let ?s = "str ''name=value; Domain=Example.COM''"
  have c1: "\<not> length ?s < 2" by code_simp
  have c2: "indexOf 0x3D (cookiePairOf ?s) = Some 4" by code_simp
  have c3: "trim (substring (cookiePairOf ?s) 0 4) \<noteq> []" by code_simp
  have c4: "isValidCookieName (trim (substring (cookiePairOf ?s) 0 4))" by code_simp
  have c5: "isValidCookiePath (ps_path (parseAttributes ?dp (attributesOf ?s)))" by code_simp
  have c6: "isValidCookieDomain (ps_domain (parseAttributes ?dp (attributesOf ?s)))" by code_simp
  have "\<not> (\<exists>e. Cookie_parse ?dp ?s = Inl e)"
    using C6_parse_throws_iff [of ?dp ?s] c1 c2 c3 c4 c5 c6 by simp
  then have C: "\<exists>c. Cookie_parse ?dp ?s = Inr c"
    using C6_parse_throws_iff [of ?dp ?s] by blast
  from A B C show ?thesis by blast
qed

subsection \<open>Domains\<close>















subsection \<open>Falsy attribute values\<close>

lemma orNum_zero: "orNum (Some (Num 0)) d = orNum None d"
  by (simp add: orNum_def)

lemma no_max_age_part:
  "maxAge c = NaN \<Longrightarrow> \<forall>p\<in>set (attributeParts toUTCString c). \<forall>x. p \<noteq> str ''Max-Age='' @ x"
  by (auto simp: attributeParts_def str_def)

lemma no_expires_part:
  "\<not> hasExpiry c \<Longrightarrow> \<forall>p\<in>set (attributeParts toUTCString c). \<forall>x. p \<noteq> str ''Expires='' @ x"
  by (auto simp: attributeParts_def str_def)

text \<open>
  Claim C10. The constructor takes the default for a falsy field, so \<open>maxAge = 0\<close>
  and \<open>expires = 0\<close> build the cookie that an absent field builds: \<open>maxAge\<close> is
  \<open>NaN\<close> and no part of \<open>toString\<close> is a \<open>Max-Age\<close> part; \<open>expires\<close> is -1,
  \<open>hasExpiry\<close> is false and no part is an \<open>Expires\<close> part.
\<close>

theorem C10_zero_is_unset:
  "Cookie_constructor (options\<lparr>o_maxAge := Some (Num 0)\<rparr>) = Cookie_constructor (options\<lparr>o_maxAge := None\<rparr>)
   \<and> Cookie_constructor (options\<lparr>o_expires := Some (Num 0)\<rparr>)
       = Cookie_constructor (options\<lparr>o_expires := None\<rparr>)
   \<and> (\<forall>c. Cookie_constructor (options\<lparr>o_maxAge := Some (Num 0)\<rparr>) = Inr c
          \<longrightarrow> maxAge c = NaN
              \<and> (\<forall>p\<in>set (attributeParts toUTCString c). (\<forall>x. p \<noteq> str ''Max-Age='' @ x)))
   \<and> (\<forall>c. Cookie_constructor (options\<lparr>o_expires := Some (Num 0)\<rparr>) = Inr c
          \<longrightarrow> expires c = Num (- 1) \<and> \<not> hasExpiry c
              \<and> (\<forall>p\<in>set (attributeParts toUTCString c). (\<forall>x. p \<noteq> str ''Expires='' @ x)))"
proof -
  have A: "Cookie_constructor (options\<lparr>o_maxAge := Some (Num 0)\<rparr>)
           = Cookie_constructor (options\<lparr>o_maxAge := None\<rparr>)"
    by (simp add: Cookie_constructor_def orNum_zero)
  have B: "Cookie_constructor (options\<lparr>o_expires := Some (Num 0)\<rparr>)
           = Cookie_constructor (options\<lparr>o_expires := None\<rparr>)"
    by (simp add: Cookie_constructor_def orNum_zero)
  have C: "maxAge c = NaN \<and> (\<forall>p\<in>set (attributeParts toUTCString c). (\<forall>x. p \<noteq> str ''Max-Age='' @ x))"
    if "Cookie_constructor (options\<lparr>o_maxAge := Some (Num 0)\<rparr>) = Inr c" for c
  proof -
    from that have "maxAge c = NaN"
      by (auto simp: Cookie_constructor_def orNum_def split: if_splits)
    then show ?thesis using no_max_age_part by blast
  qed
  have D: "expires c = Num (- 1) \<and> \<not> hasExpiry c
           \<and> (\<forall>p\<in>set (attributeParts toUTCString c). (\<forall>x. p \<noteq> str ''Expires='' @ x))"
    if "Cookie_constructor (options\<lparr>o_expires := Some (Num 0)\<rparr>) = Inr c" for c
  proof -
    from that have e: "expires c = Num (- 1)"
      by (auto simp: Cookie_constructor_def orNum_def EMPTY_EXPIRES_VALUE_def split: if_splits)
    then have "\<not> hasExpiry c"
      by (simp add: hasExpiry_def EMPTY_EXPIRES_VALUE_def)
    then show ?thesis using e no_expires_part by blast
  qed
  from A B C D show ?thesis by blast
qed


text \<open>
  The cookie \<open>a=b\<close> built with \<open>maxAge = 0\<close>, and with \<open>expires = 0\<close>.
\<close>

theorem C10_zero_is_unset_witness:
  "Cookie_constructor ((nameValueOptions (str ''a'') (str ''b''))\<lparr>o_maxAge := Some (Num 0)\<rparr>)
     = Inr \<lparr> name = str ''a'', cvalue = str ''b'', domain = [], path = str ''/'',
             expires = Num (- 1), secure = False, sameSite = Lax, httpOnly = False,
             maxAge = NaN, partitioned = False \<rparr>
   \<and> Cookie_constructor ((nameValueOptions (str ''a'') (str ''b''))\<lparr>o_expires := Some (Num 0)\<rparr>)
     = Inr \<lparr> name = str ''a'', cvalue = str ''b'', domain = [], path = str ''/'',
             expires = Num (- 1), secure = False, sameSite = Lax, httpOnly = False,
             maxAge = NaN, partitioned = False \<rparr>
   \<and> \<not> hasExpiry \<lparr> name = str ''a'', cvalue = str ''b'', domain = [], path = str ''/'',
             expires = Num (- 1), secure = False, sameSite = Lax, httpOnly = False,
             maxAge = NaN, partitioned = False \<rparr>
   \<and> Cookie_toString (toUTCStringAt 1623233894000 exampleDate)
        \<lparr> name = str ''a'', cvalue = str ''b'', domain = [], path = str ''/'',
          expires = Num (- 1), secure = False, sameSite = Lax, httpOnly = False,
          maxAge = NaN, partitioned = False \<rparr>
     = Inr (str ''a=b; Path=/; SameSite=Lax'')"
proof -
  let ?o = "nameValueOptions (str ''a'') (str ''b'')"
  let ?c = "\<lparr> name = str ''a'', cvalue = str ''b'', domain = [], path = str ''/'',
             expires = Num (- 1), secure = False, sameSite = Lax, httpOnly = False,
             maxAge = NaN, partitioned = False \<rparr>"
  have unset1: "Cookie_constructor (?o\<lparr>o_maxAge := None\<rparr>) = Inr ?c" by code_simp
  have unset2: "Cookie_constructor (?o\<lparr>o_expires := None\<rparr>) = Inr ?c" by code_simp
  have A: "Cookie_constructor (?o\<lparr>o_maxAge := Some (Num 0)\<rparr>) = Inr ?c"
    using C10_zero_is_unset [of ?o] unset1 by simp
  have B: "Cookie_constructor (?o\<lparr>o_expires := Some (Num 0)\<rparr>) = Inr ?c"
    using C10_zero_is_unset [of ?o] unset2 by simp
  have C: "\<not> hasExpiry ?c"
    using C10_zero_is_unset [of ?o] B by blast
  have D: "Cookie_toString (toUTCStringAt 1623233894000 exampleDate) ?c
           = Inr (str ''a=b; Path=/; SameSite=Lax'')"
    by code_simp
  from A B C D show ?thesis by blast
qed

subsection \<open>Serialize, then parse\<close>

lemma hexDigit_unreserved: "n < 16 \<Longrightarrow> isUnreserved (hexDigit n)"
proof -
  assume "n < 16"
  then have "n \<in> set [0..<16]" by simp
  moreover have "list_all (\<lambda>n. isUnreserved (hexDigit n)) [0..<16]" by code_simp
  ultimately show ?thesis unfolding list_all_iff by blast
qed

lemma pctOctet_safe: "\<forall>c\<in>set (pctOctet b). isUnreserved c \<or> c = 0x25"
  by (simp add: pctOctet_def hexDigit_unreserved)

lemma pctEncode_safe: "\<forall>c\<in>set (pctEncode cp). isUnreserved c \<or> c = 0x25"
  using pctOctet_safe by (auto simp: pctEncode_def)

lemma encodeURIComponent_safe:
  "encodeURIComponent v = Inr ev \<Longrightarrow> \<forall>c\<in>set ev. isUnreserved c \<or> c = 0x25"
proof (induction v arbitrary: ev rule: encodeURIComponent.induct)
  case 1
  then show ?case by simp
next
  case (2 c cs)
  show ?case
  proof (cases "isUnreserved c")
    case True
    with "2.prems" obtain ev' where "encodeURIComponent cs = Inr ev'" "ev = c # ev'"
      by (cases "encodeURIComponent cs") auto
    with True "2.IH"(1) show ?thesis by auto
  next
    case nr: False
    show ?thesis
    proof (cases "isHighSurrogate c")
      case True
      with nr "2.prems" obtain d ds where cs: "cs = d # ds" and low: "isLowSurrogate d"
        and nl: "\<not> isLowSurrogate c"
        by (cases cs) (auto split: if_splits)
      with nr True "2.prems" obtain ev' where ev': "encodeURIComponent ds = Inr ev'"
        and ev: "ev = pctEncode (0x10000 + (unat c - 0xD800) * 0x400 + (unat d - 0xDC00)) @ ev'"
        by (cases "encodeURIComponent ds") auto
      from "2.IH"(2) [OF nr nl True cs low ev'] ev pctEncode_safe show ?thesis
        by auto
    next
      case False
      with nr "2.prems" have nl: "\<not> isLowSurrogate c"
        by (auto split: if_splits)
      with nr False "2.prems" obtain ev' where ev': "encodeURIComponent cs = Inr ev'"
        and ev: "ev = pctEncode (unat c) @ ev'"
        by (cases "encodeURIComponent cs") auto
      from "2.IH"(3) [OF nr nl False ev'] ev pctEncode_safe show ?thesis
        by auto
    qed
  qed
qed


lemma unreserved_plain:
  "isUnreserved c \<or> c = 0x25 \<Longrightarrow> c \<noteq> 0x3B \<and> c \<noteq> 0x3D \<and> \<not> isWhiteSpace c"
  unfolding isUnreserved_def isWhiteSpace_def
  by (auto simp: word_le_nat_alt)

lemma name_char_plain:
  "isValidCharacterInCookieName c \<Longrightarrow> c \<noteq> 0x3B \<and> c \<noteq> 0x3D \<and> \<not> isWhiteSpace c"
  unfolding isValidCharacterInCookieName_def isWhiteSpace_def Let_def
  by (auto simp: word_le_nat_alt)

lemma indexOf_first: "c \<notin> set xs \<Longrightarrow> indexOf c (xs @ c # ys) = Some (length xs)"
  by (induction xs) auto

lemma trim_plain: "\<forall>c\<in>set s. \<not> isWhiteSpace c \<Longrightarrow> trim s = s"
proof -
  assume a: "\<forall>c\<in>set s. \<not> isWhiteSpace c"
  then have "dropWhile isWhiteSpace s = s"
    by (cases s) auto
  moreover from a have "dropWhile isWhiteSpace (rev s) = rev s"
    by (cases "rev s") (auto simp: dropWhile_eq_self_iff)
  ultimately show ?thesis by (simp add: trim_def)
qed

lemma pctEncode_length: "3 \<le> length (pctEncode cp)"
  by (simp add: pctEncode_def utf8_def pctOctet_def)


lemma encodeURIComponent_length:
  "encodeURIComponent v = Inr ev \<Longrightarrow> length v \<le> length ev"
proof (induction v arbitrary: ev rule: encodeURIComponent.induct)
  case 1
  then show ?case by simp
next
  case (2 c cs)
  show ?case
  proof (cases "isUnreserved c")
    case True
    with "2.prems" obtain ev' where "encodeURIComponent cs = Inr ev'" "ev = c # ev'"
      by (cases "encodeURIComponent cs") auto
    with True "2.IH"(1) show ?thesis by auto
  next
    case nr: False
    show ?thesis
    proof (cases "isHighSurrogate c")
      case True
      with nr "2.prems" obtain d ds where cs: "cs = d # ds" and low: "isLowSurrogate d"
        and nl: "\<not> isLowSurrogate c"
        by (cases cs) (auto split: if_splits)
      with nr True "2.prems" obtain ev' where ev': "encodeURIComponent ds = Inr ev'"
        and ev: "ev = pctEncode (0x10000 + (unat c - 0xD800) * 0x400 + (unat d - 0xDC00)) @ ev'"
        by (cases "encodeURIComponent ds") auto
      from "2.IH"(2) [OF nr nl True cs low ev'] ev cs
        pctEncode_length [of "0x10000 + (unat c - 0xD800) * 0x400 + (unat d - 0xDC00)"]
      show ?thesis by simp
    next
      case False
      with nr "2.prems" have nl: "\<not> isLowSurrogate c"
        by (auto split: if_splits)
      with nr False "2.prems" obtain ev' where ev': "encodeURIComponent cs = Inr ev'"
        and ev: "ev = pctEncode (unat c) @ ev'"
        by (cases "encodeURIComponent cs") auto
      from "2.IH"(3) [OF nr nl False ev'] ev pctEncode_length [of "unat c"]
      show ?thesis by simp
    qed
  qed
qed

lemma encodeURIComponent_unreserved:
  "list_all isUnreserved v \<Longrightarrow> encodeURIComponent v = Inr v"
  by (induction v) auto

lemma encodeURIComponent_fixed:
  "encodeURIComponent v = Inr v \<Longrightarrow> list_all isUnreserved v"
proof (induction v)
  case Nil
  then show ?case by simp
next
  case (Cons c cs)
  show ?case
  proof (cases "isUnreserved c")
    case True
    with Cons.prems have "encodeURIComponent cs = Inr cs"
      by (cases "encodeURIComponent cs") auto
    with True Cons.IH show ?thesis by simp
  next
    case nr: False
    have False
    proof (cases "isHighSurrogate c")
      case True
      with nr Cons.prems obtain d ds where cs: "cs = d # ds" and low: "isLowSurrogate d"
        and nl: "\<not> isLowSurrogate c"
        by (cases cs) (auto split: if_splits)
      with nr True Cons.prems obtain ev' where ev': "encodeURIComponent ds = Inr ev'"
        and ev: "c # cs = pctEncode (0x10000 + (unat c - 0xD800) * 0x400 + (unat d - 0xDC00)) @ ev'"
        by (cases "encodeURIComponent ds") auto
      from ev have "length (c # cs)
          = length (pctEncode (0x10000 + (unat c - 0xD800) * 0x400 + (unat d - 0xDC00))) + length ev'"
        by (metis length_append)
      with encodeURIComponent_length [OF ev'] cs
        pctEncode_length [of "0x10000 + (unat c - 0xD800) * 0x400 + (unat d - 0xDC00)"]
      show False by simp
    next
      case False
      with nr Cons.prems have nl: "\<not> isLowSurrogate c"
        by (auto split: if_splits)
      with nr False Cons.prems obtain ev' where ev': "encodeURIComponent cs = Inr ev'"
        and ev: "c # cs = pctEncode (unat c) @ ev'"
        by (cases "encodeURIComponent cs") auto
      from ev have "length (c # cs) = length (pctEncode (unat c)) + length ev'"
        by (metis length_append)
      with encodeURIComponent_length [OF ev'] pctEncode_length [of "unat c"]
      show False by simp
    qed
    then show ?thesis ..
  qed
qed

lemma toString_name_value:
  assumes "encodeURIComponent v = Inr ev"
  shows "Cookie_toString toUTCString
           \<lparr> name = n, cvalue = v, domain = [], path = str ''/'', expires = Num (- 1),
             secure = False, sameSite = Lax, httpOnly = False, maxAge = NaN,
             partitioned = False \<rparr>
         = Inr (n @ str ''='' @ ev @ str ''; Path=/; SameSite=Lax'')"
  using assms
  by (simp add: Cookie_toString_def attributeParts_def hasExpiry_def EMPTY_EXPIRES_VALUE_def
      join_str_def sameSiteString_def str_def)

lemma default_attributes:
  "parseAttributes dateParse (split_str 0x3B (str '' Path=/; SameSite=Lax'')) = initialParseState"
  by code_simp

lemma parse_name_value:
  assumes n: "isValidCookieName n"
    and ev: "\<forall>c\<in>set ev. isUnreserved c \<or> c = 0x25"
  shows "Cookie_parse dateParse (n @ str ''='' @ ev @ str ''; Path=/; SameSite=Lax'')
         = Inr \<lparr> name = n, cvalue = ev, domain = [], path = str ''/'', expires = Num (- 1),
                 secure = False, sameSite = Lax, httpOnly = False, maxAge = NaN,
                 partitioned = False \<rparr>"
proof -
  let ?pair = "n @ 0x3D # ev"
  let ?s = "n @ str ''='' @ ev @ str ''; Path=/; SameSite=Lax''"
  from n have n_chars: "\<forall>c\<in>set n. c \<noteq> 0x3B \<and> c \<noteq> 0x3D \<and> \<not> isWhiteSpace c" and n_ne: "n \<noteq> []"
    using name_char_plain by (auto simp: isValidCookieName_def list_all_iff split: if_splits)
  from ev have ev_chars: "\<forall>c\<in>set ev. c \<noteq> 0x3B \<and> c \<noteq> 0x3D \<and> \<not> isWhiteSpace c"
    using unreserved_plain by blast
  have s: "?s = ?pair @ 0x3B # str '' Path=/; SameSite=Lax''"
    by (simp add: str_def)
  have "0x3B \<notin> set ?pair"
    using n_chars ev_chars by auto
  then have semi: "indexOf 0x3B ?s = Some (length ?pair)"
    unfolding s by (rule indexOf_first)
  have pair: "cookiePairOf ?s = ?pair"
    unfolding cookiePairOf_def semi by (simp add: substring_def s)
  have attrs: "attributesOf ?s = split_str 0x3B (str '' Path=/; SameSite=Lax'')"
    unfolding attributesOf_def semi by (simp add: substringFrom_def s)
  have "0x3D \<notin> set n"
    using n_chars by auto
  then have eq: "indexOf 0x3D ?pair = Some (length n)"
    by (rule indexOf_first)
  have name: "trim (substring ?pair 0 (length n)) = n"
    using n_chars by (simp add: substring_def trim_plain)
  have val: "trim (substringFrom ?pair (Suc (length n))) = ev"
    using ev_chars by (simp add: substringFrom_def trim_plain)
  have long: "\<not> length ?s < 2"
    using n_ne by (cases n) (simp_all add: str_def)
  show ?thesis
    unfolding Cookie_parse_def pair attrs default_attributes
    using long n n_ne
    by (simp add: eq name val Let_def Cookie_create_def Cookie_constructor_def
        initialParseState_def failsCheck_def orStr_def orNum_def orBool_def orSameSite_def
        EMPTY_EXPIRES_VALUE_def isValidCookiePath_def isValidCharacterInCookiePath_def str_def)
qed

text \<open>
  Claim C3, as the code has it. The claim says that parsing the \<open>toString\<close> of a cookie
  built from a name and a value gives back the name and the value, for every value.
  \<open>toString\<close> writes \<open>encodeURIComponent(value)\<close> and \<open>parse\<close> decodes nothing. So,
  for a valid name and a value that \<open>encodeURIComponent\<close> accepts (no lone surrogate):
  the cookie is built, \<open>toString\<close> is \<open>name=encoded; Path=/; SameSite=Lax\<close>, and
  parsing that string gives the name, the encoded value, domain \<open>""\<close>, path \<open>/\<close> and
  \<open>Lax\<close>; the encoded value is the value exactly when every character of the value is
  unreserved.
\<close>

theorem C3_round_trip_encoded_value:
  assumes "isValidCookieName n" and "encodeURIComponent v = Inr ev"
  shows "Cookie_create (nameValueOptions n v)
         = Inr \<lparr> name = n, cvalue = v, domain = [], path = str ''/'', expires = Num (- 1),
                 secure = False, sameSite = Lax, httpOnly = False, maxAge = NaN,
                 partitioned = False \<rparr>
     \<and> Cookie_toString toUTCString
         \<lparr> name = n, cvalue = v, domain = [], path = str ''/'', expires = Num (- 1),
           secure = False, sameSite = Lax, httpOnly = False, maxAge = NaN,
           partitioned = False \<rparr>
       = Inr (n @ str ''='' @ ev @ str ''; Path=/; SameSite=Lax'')
     \<and> Cookie_parse dateParse (n @ str ''='' @ ev @ str ''; Path=/; SameSite=Lax'')
       = Inr \<lparr> name = n, cvalue = ev, domain = [], path = str ''/'', expires = Num (- 1),
               secure = False, sameSite = Lax, httpOnly = False, maxAge = NaN,
               partitioned = False \<rparr>
     \<and> (ev = v \<longleftrightarrow> list_all isUnreserved v)"
proof -
  have A: "Cookie_create (nameValueOptions n v)
         = Inr \<lparr> name = n, cvalue = v, domain = [], path = str ''/'', expires = Num (- 1),
                 secure = False, sameSite = Lax, httpOnly = False, maxAge = NaN,
                 partitioned = False \<rparr>"
    using assms(1)
    by (simp add: Cookie_create_def Cookie_constructor_def nameValueOptions_def failsCheck_def
        orStr_def orNum_def orBool_def orSameSite_def EMPTY_EXPIRES_VALUE_def)
  have D: "ev = v \<longleftrightarrow> list_all isUnreserved v"
    using assms(2) encodeURIComponent_fixed [of v] encodeURIComponent_unreserved [of v] by auto
  from A toString_name_value [OF assms(2)]
    parse_name_value [OF assms(1) encodeURIComponent_safe [OF assms(2)]] D
  show ?thesis by blast
qed



text \<open>
  The claim fails for the value \<open>hello world\<close>: the parsed value is \<open>hello%20world\<close>.
\<close>

theorem C3_value_not_decoded_counterexample:
  "Cookie_create (nameValueOptions (str ''test'') (str ''hello world''))
     = Inr \<lparr> name = str ''test'', cvalue = str ''hello world'', domain = [], path = str ''/'',
             expires = Num (- 1), secure = False, sameSite = Lax, httpOnly = False,
             maxAge = NaN, partitioned = False \<rparr>
   \<and> Cookie_toString (toUTCStringAt 1623233894000 exampleDate)
         \<lparr> name = str ''test'', cvalue = str ''hello world'', domain = [], path = str ''/'',
           expires = Num (- 1), secure = False, sameSite = Lax, httpOnly = False,
           maxAge = NaN, partitioned = False \<rparr>
     = Inr (str ''test=hello%20world; Path=/; SameSite=Lax'')
   \<and> Cookie_parse (dateParseAt exampleDate 1623233894000)
         (str ''test=hello%20world; Path=/; SameSite=Lax'')
     = Inr \<lparr> name = str ''test'', cvalue = str ''hello%20world'', domain = [], path = str ''/'',
             expires = Num (- 1), secure = False, sameSite = Lax, httpOnly = False,
             maxAge = NaN, partitioned = False \<rparr>
   \<and> str ''hello%20world'' \<noteq> str ''hello world''"
  by code_simp

text \<open>
  A value with a space and a value of unreserved characters.
\<close>

theorem C3_round_trip_encoded_value_witness:
  "Cookie_parse (dateParseAt exampleDate 1623233894000)
         (str ''test=hello%20world; Path=/; SameSite=Lax'')
     = Inr \<lparr> name = str ''test'', cvalue = str ''hello%20world'', domain = [], path = str ''/'',
             expires = Num (- 1), secure = False, sameSite = Lax, httpOnly = False,
             maxAge = NaN, partitioned = False \<rparr>
   \<and> Cookie_parse (dateParseAt exampleDate 1623233894000)
         (str ''test=value; Path=/; SameSite=Lax'')
     = Inr \<lparr> name = str ''test'', cvalue = str ''value'', domain = [], path = str ''/'',
             expires = Num (- 1), secure = False, sameSite = Lax, httpOnly = False,
             maxAge = NaN, partitioned = False \<rparr>
   \<and> list_all isUnreserved (str ''value'')
   \<and> \<not> list_all isUnreserved (str ''hello world'')"
proof -
  let ?dp = "dateParseAt exampleDate 1623233894000"
  let ?utc = "toUTCStringAt 1623233894000 exampleDate"
  have n: "isValidCookieName (str ''test'')" by code_simp
  have e1: "encodeURIComponent (str ''hello world'') = Inr (str ''hello%20world'')" by code_simp
  have e2: "encodeURIComponent (str ''value'') = Inr (str ''value'')" by code_simp
  have s1: "str ''test'' @ str ''='' @ str ''hello%20world'' @ str ''; Path=/; SameSite=Lax''
            = str ''test=hello%20world; Path=/; SameSite=Lax''"
    by (simp add: str_def)
  have s2: "str ''test'' @ str ''='' @ str ''value'' @ str ''; Path=/; SameSite=Lax''
            = str ''test=value; Path=/; SameSite=Lax''"
    by (simp add: str_def)
  have ne: "str ''hello%20world'' \<noteq> str ''hello world''" by (simp add: str_def)
  note T1 = C3_round_trip_encoded_value [OF n e1, of ?utc ?dp]
  note T2 = C3_round_trip_encoded_value [OF n e2, of ?utc ?dp]
  from T1 have A: "Cookie_parse ?dp (str ''test=hello%20world; Path=/; SameSite=Lax'')
     = Inr \<lparr> name = str ''test'', cvalue = str ''hello%20world'', domain = [], path = str ''/'',
             expires = Num (- 1), secure = False, sameSite = Lax, httpOnly = False,
             maxAge = NaN, partitioned = False \<rparr>"
    unfolding s1 by blast
  from T2 have B: "Cookie_parse ?dp (str ''test=value; Path=/; SameSite=Lax'')
     = Inr \<lparr> name = str ''test'', cvalue = str ''value'', domain = [], path = str ''/'',
             expires = Num (- 1), secure = False, sameSite = Lax, httpOnly = False,
             maxAge = NaN, partitioned = False \<rparr>"
    unfolding s2 by blast
  from T2 have C: "list_all isUnreserved (str ''value'')" by blast
  from T1 ne have D: "\<not> list_all isUnreserved (str ''hello world'')" by blast
  from A B C D show ?thesis by blast
qed

section \<open>Properties of CookieMap\<close>

subsection \<open>Lookup and deletion\<close>

lemma findIndex_find:
  "(case findIndex P xs of None \<Rightarrow> None | Some i \<Rightarrow> Some (xs ! i)) = find P xs"
  by (induction xs) (auto split: option.splits)

lemma CookieMap_get_find:
  "CookieMap_get m n =
     (case find (\<lambda>cookie. name cookie = n) (modifiedCookies m) of
        Some cookie \<Rightarrow> if cvalue cookie = [] then None else Some (cvalue cookie)
      | None \<Rightarrow> map_option snd (find (\<lambda>cookie. fst cookie = n) (originalCookies m)))"
proof -
  have a: "find (\<lambda>cookie. name cookie = n) (modifiedCookies m)
           = (case findIndex (\<lambda>cookie. name cookie = n) (modifiedCookies m) of
                None \<Rightarrow> None | Some i \<Rightarrow> Some (modifiedCookies m ! i))"
    by (simp add: findIndex_find)
  have b: "find (\<lambda>cookie. fst cookie = n) (originalCookies m)
           = (case findIndex (\<lambda>cookie. fst cookie = n) (originalCookies m) of
                None \<Rightarrow> None | Some i \<Rightarrow> Some (originalCookies m ! i))"
    by (simp add: findIndex_find)
  show ?thesis
    unfolding CookieMap_get_def a b by (simp add: Let_def split: option.splits)
qed

lemma find_distinct_name:
  "distinct (map f xs) \<Longrightarrow> x \<in> set xs \<Longrightarrow> find (\<lambda>y. f y = f x) xs = Some x"
  by (induction xs) (auto simp: image_iff)

lemma find_None_name: "(\<forall>x\<in>set xs. f x \<noteq> n) \<Longrightarrow> find (\<lambda>y. f y = n) xs = None"
  by (induction xs) auto

lemma set_a1:
  "CookieMap_set (CookieMap_constructor (Some (InputString (str ''a=1''))))
     (SetName (str ''a'') (Some (str ''2'')))
   = Inr \<lparr> originalCookies = [],
           modifiedCookies =
             [\<lparr> name = str ''a'', cvalue = str ''2'', domain = [], path = str ''/'',
                expires = Num (- 1), secure = False, sameSite = Lax, httpOnly = False,
                maxAge = NaN, partitioned = False \<rparr>] \<rparr>"
  by code_simp

text \<open>
  Claim C4. \<open>get\<close> looks at the modified cookies first: when one of them has the
  requested name (there is at most one in every collection the interface can build), the
  result is its value, or absent when that value is empty, whatever the original entries
  hold; only when no modified cookie has the name is the first original entry with that
  key consulted. For the collection built from \<open>a=1\<close>, after \<open>set("a", "2")\<close>,
  \<open>get("a")\<close> is \<open>2\<close> and \<open>toJSON()\<close> is the object \<open>{a: "2"}\<close>.
\<close>

theorem C4_get_prefers_modified:
  "(\<forall>c. c \<in> set (modifiedCookies m) \<and> name c = n \<and> distinct (map name (modifiedCookies m))
        \<longrightarrow> CookieMap_get m n = (if cvalue c = [] then None else Some (cvalue c)))
   \<and> ((\<forall>c\<in>set (modifiedCookies m). name c \<noteq> n)
        \<longrightarrow> CookieMap_get m n = map_option snd (find (\<lambda>kv. fst kv = n) (originalCookies m)))
   \<and> (\<exists>m'. CookieMap_set (CookieMap_constructor (Some (InputString (str ''a=1''))))
               (SetName (str ''a'') (Some (str ''2''))) = Inr m'
            \<and> CookieMap_get m' (str ''a'') = Some (str ''2'')
            \<and> CookieMap_toJSON m' = [str ''a'' \<mapsto> str ''2''])"
proof -
  have A: "CookieMap_get m n = (if cvalue c = [] then None else Some (cvalue c))"
    if "c \<in> set (modifiedCookies m)" "name c = n" "distinct (map name (modifiedCookies m))" for c
    using find_distinct_name [of name "modifiedCookies m" c] that
    by (simp add: CookieMap_get_find)
  have B: "CookieMap_get m n = map_option snd (find (\<lambda>kv. fst kv = n) (originalCookies m))"
    if "\<forall>c\<in>set (modifiedCookies m). name c \<noteq> n"
    using find_None_name [OF that] by (simp add: CookieMap_get_find)
  let ?m' = "\<lparr> originalCookies = [],
           modifiedCookies =
             [\<lparr> name = str ''a'', cvalue = str ''2'', domain = [], path = str ''/'',
                expires = Num (- 1), secure = False, sameSite = Lax, httpOnly = False,
                maxAge = NaN, partitioned = False \<rparr>] \<rparr>"
  have g: "CookieMap_get ?m' (str ''a'') = Some (str ''2'')"
    by code_simp
  have j: "CookieMap_toJSON ?m' = [str ''a'' \<mapsto> str ''2'']"
    by (simp add: CookieMap_toJSON_def setProperty_def str_def)
  from A B set_a1 g j show ?thesis by blast
qed


text \<open>
  A set cookie, a delete marker and an untouched original entry.
\<close>

theorem C4_get_prefers_modified_witness:
  "CookieMap_get
     \<lparr> originalCookies = [],
       modifiedCookies =
         [\<lparr> name = str ''a'', cvalue = str ''2'', domain = [], path = str ''/'',
            expires = Num (- 1), secure = False, sameSite = Lax, httpOnly = False,
            maxAge = NaN, partitioned = False \<rparr>] \<rparr> (str ''a'') = Some (str ''2'')
   \<and> CookieMap_get
     \<lparr> originalCookies = [(str ''b'', str ''3'')],
       modifiedCookies =
         [\<lparr> name = str ''a'', cvalue = [], domain = [], path = str ''/'',
            expires = Num 1, secure = False, sameSite = Lax, httpOnly = False,
            maxAge = NaN, partitioned = False \<rparr>] \<rparr> (str ''a'') = None
   \<and> CookieMap_get \<lparr> originalCookies = [(str ''a'', str ''1'')], modifiedCookies = [] \<rparr> (str ''a'')
       = Some (str ''1'')"
proof -
  let ?c = "\<lparr> name = str ''a'', cvalue = str ''2'', domain = [], path = str ''/'',
            expires = Num (- 1), secure = False, sameSite = Lax, httpOnly = False,
            maxAge = NaN, partitioned = False \<rparr>"
  let ?d = "\<lparr> name = str ''a'', cvalue = [], domain = [], path = str ''/'',
            expires = Num 1, secure = False, sameSite = Lax, httpOnly = False,
            maxAge = NaN, partitioned = False \<rparr>"
  let ?m1 = "\<lparr> originalCookies = [], modifiedCookies = [?c] \<rparr>"
  let ?m2 = "\<lparr> originalCookies = [(str ''b'', str ''3'')], modifiedCookies = [?d] \<rparr>"
  let ?m3 = "\<lparr> originalCookies = [(str ''a'', str ''1'')], modifiedCookies = [] \<rparr>"
  have ne: "str ''2'' \<noteq> []" by (simp add: str_def)
  have h1: "?c \<in> set (modifiedCookies ?m1) \<and> name ?c = str ''a''
            \<and> distinct (map name (modifiedCookies ?m1))"
    by simp
  have A: "CookieMap_get ?m1 (str ''a'') = Some (str ''2'')"
    using C4_get_prefers_modified [of ?m1 "str ''a''"] h1 ne by force
  have h2: "?d \<in> set (modifiedCookies ?m2) \<and> name ?d = str ''a''
            \<and> distinct (map name (modifiedCookies ?m2))"
    by simp
  have B: "CookieMap_get ?m2 (str ''a'') = None"
    using C4_get_prefers_modified [of ?m2 "str ''a''"] h2 by force
  have h3: "\<forall>c\<in>set (modifiedCookies ?m3). name c \<noteq> str ''a''"
    by simp
  have C: "CookieMap_get ?m3 (str ''a'') = Some (str ''1'')"
    using C4_get_prefers_modified [of ?m3 "str ''a''"] h3 by simp
  from A B C show ?thesis by blast
qed

lemma has_after_push:
  "CookieMap_has (pushModified (removeInternal m n) c) n \<longleftrightarrow> cvalue c \<noteq> []" if "name c = n"
proof -
  have "find (\<lambda>cookie. name cookie = n) (filter (\<lambda>cookie. name cookie \<noteq> n) xs @ [c]) = Some c" for xs
    using that by (induction xs) auto
  then show ?thesis
    by (simp add: CookieMap_has_def CookieMap_get_find pushModified_def removeInternal_def)
qed

lemma changes_after_push:
  "name c = n \<Longrightarrow>
   filter (\<lambda>cookie. name cookie = n) (CookieMap_getAllChanges (pushModified (removeInternal m n) c)) = [c]"
proof -
  assume n: "name c = n"
  have "filter (\<lambda>cookie. name cookie = n) (filter (\<lambda>cookie. name cookie \<noteq> n) xs) = []" for xs
    by (induction xs) auto
  then show ?thesis
    using n by (simp add: CookieMap_getAllChanges_def pushModified_def removeInternal_def)
qed


lemma orStr_idem: "orStr (Some (orStr x d)) d = orStr x d"
  by (simp add: orStr_def split: option.splits)

lemma create_deleteMarker:
  assumes "isValidCookieName n" "isValidCookieDomain (orStr d [])"
    "isValidCookiePath (orStr p (str ''/''))"
  shows "Cookie_create (deleteMarkerOptions n d p) = Inr (deleteMarker n d p)"
  using assms
  by (simp add: Cookie_create_def Cookie_constructor_def deleteMarkerOptions_def deleteMarker_def
      failsCheck_path failsCheck_domain orStr_idem orNum_def orBool_def orSameSite_def
      EMPTY_EXPIRES_VALUE_def)

text \<open>
  Claim C5. For a name, domain and path that pass the checks of the constructor,
  \<open>delete\<close> returns whether \<open>has\<close> held before, removes the entries of that name and
  appends the delete marker; afterwards \<open>has\<close> is false and the marker is the only
  change with that name. The marker takes the domain and path of the options form, or
  the defaults. For the collection built from \<open>a=1\<close>: \<open>delete("a")\<close> returns true,
  \<open>has("a")\<close> is false afterwards and \<open>getAllChanges()\<close> is the one marker; deleting
  the absent name \<open>b\<close> returns false.
\<close>

theorem C5_delete_marker:
  "(isValidCookieName n \<and> isValidCookieDomain (orStr d []) \<and> isValidCookiePath (orStr p (str ''/''))
      \<longrightarrow> CookieMap_delete m (DeleteOptions \<lparr> d_name = n, d_domain = d, d_path = p \<rparr>)
            = (Inr (CookieMap_has m n), pushModified (removeInternal m n) (deleteMarker n d p))
          \<and> \<not> CookieMap_has (snd (CookieMap_delete m (DeleteOptions \<lparr> d_name = n, d_domain = d, d_path = p \<rparr>))) n
          \<and> filter (\<lambda>c. name c = n)
               (CookieMap_getAllChanges
                  (snd (CookieMap_delete m (DeleteOptions \<lparr> d_name = n, d_domain = d, d_path = p \<rparr>))))
             = [deleteMarker n d p])
   \<and> (isValidCookieName n
      \<longrightarrow> CookieMap_delete m (DeleteName n)
            = (Inr (CookieMap_has m n), pushModified (removeInternal m n) (deleteMarker n None None))
          \<and> \<not> CookieMap_has (snd (CookieMap_delete m (DeleteName n))) n
          \<and> filter (\<lambda>c. name c = n) (CookieMap_getAllChanges (snd (CookieMap_delete m (DeleteName n))))
             = [deleteMarker n None None])
   \<and> CookieMap_delete (CookieMap_constructor (Some (InputString (str ''a=1'')))) (DeleteName (str ''a''))
      = (Inr True,
         \<lparr> originalCookies = [],
           modifiedCookies =
             [\<lparr> name = str ''a'', cvalue = [], domain = [], path = str ''/'', expires = Num 1,
                secure = False, sameSite = Lax, httpOnly = False, maxAge = NaN,
                partitioned = False \<rparr>] \<rparr>)
   \<and> \<not> CookieMap_has
          (snd (CookieMap_delete (CookieMap_constructor (Some (InputString (str ''a=1'')))) (DeleteName (str ''a''))))
          (str ''a'')
   \<and> CookieMap_getAllChanges
        (snd (CookieMap_delete (CookieMap_constructor (Some (InputString (str ''a=1'')))) (DeleteName (str ''a''))))
      = [\<lparr> name = str ''a'', cvalue = [], domain = [], path = str ''/'', expires = Num 1,
           secure = False, sameSite = Lax, httpOnly = False, maxAge = NaN, partitioned = False \<rparr>]
   \<and> fst (CookieMap_delete (CookieMap_constructor (Some (InputString (str ''a=1'')))) (DeleteName (str ''b'')))
      = Inr False"
proof -
  have name_marker: "name (deleteMarker n d p) = n" "cvalue (deleteMarker n d p) = []" for d p
    by (simp_all add: deleteMarker_def)
  have A: "CookieMap_delete m (DeleteOptions \<lparr> d_name = n, d_domain = d, d_path = p \<rparr>)
            = (Inr (CookieMap_has m n), pushModified (removeInternal m n) (deleteMarker n d p))"
    if "isValidCookieName n" "isValidCookieDomain (orStr d [])" "isValidCookiePath (orStr p (str ''/''))"
    using create_deleteMarker [OF that] by (simp add: CookieMap_delete_def Let_def)
  have valid_defaults: "isValidCookieDomain (orStr None [])" "isValidCookiePath (orStr None (str ''/''))"
    by code_simp+
  have B: "CookieMap_delete m (DeleteName n)
            = (Inr (CookieMap_has m n), pushModified (removeInternal m n) (deleteMarker n None None))"
    if "isValidCookieName n"
    using create_deleteMarker [OF that valid_defaults] by (simp add: CookieMap_delete_def Let_def)
  have C: "\<not> CookieMap_has (pushModified (removeInternal m n) (deleteMarker n d p)) n" for d p
    using has_after_push [of "deleteMarker n d p" n m] by (simp add: name_marker)
  have D: "filter (\<lambda>c. name c = n)
             (CookieMap_getAllChanges (pushModified (removeInternal m n) (deleteMarker n d p)))
           = [deleteMarker n d p]" for d p
    by (rule changes_after_push) (simp add: name_marker)
  have E: "CookieMap_delete (CookieMap_constructor (Some (InputString (str ''a=1'')))) (DeleteName (str ''a''))
      = (Inr True,
         \<lparr> originalCookies = [],
           modifiedCookies =
             [\<lparr> name = str ''a'', cvalue = [], domain = [], path = str ''/'', expires = Num 1,
                secure = False, sameSite = Lax, httpOnly = False, maxAge = NaN,
                partitioned = False \<rparr>] \<rparr>)"
    by code_simp
  have F: "fst (CookieMap_delete (CookieMap_constructor (Some (InputString (str ''a=1'')))) (DeleteName (str ''b'')))
      = Inr False"
    by code_simp
  have G: "\<not> CookieMap_has
          (snd (CookieMap_delete (CookieMap_constructor (Some (InputString (str ''a=1'')))) (DeleteName (str ''a''))))
          (str ''a'')"
    by code_simp
  have H: "CookieMap_getAllChanges
        (snd (CookieMap_delete (CookieMap_constructor (Some (InputString (str ''a=1'')))) (DeleteName (str ''a''))))
      = [\<lparr> name = str ''a'', cvalue = [], domain = [], path = str ''/'', expires = Num 1,
           secure = False, sameSite = Lax, httpOnly = False, maxAge = NaN, partitioned = False \<rparr>]"
    by code_simp
  show ?thesis
    using A B C D E F G H by simp
qed

text \<open>
  The options form with a domain and a path, and the deletion of an absent name.
\<close>

theorem C5_delete_marker_witness:
  "CookieMap_delete \<lparr> originalCookies = [(str ''a'', str ''1'')], modifiedCookies = [] \<rparr>
     (DeleteOptions \<lparr> d_name = str ''a'', d_domain = Some (str ''example.com''), d_path = Some (str ''/x'') \<rparr>)
   = (Inr True,
      \<lparr> originalCookies = [],
        modifiedCookies =
          [\<lparr> name = str ''a'', cvalue = [], domain = str ''example.com'', path = str ''/x'',
             expires = Num 1, secure = False, sameSite = Lax, httpOnly = False, maxAge = NaN,
             partitioned = False \<rparr>] \<rparr>)
   \<and> CookieMap_delete \<lparr> originalCookies = [(str ''a'', str ''1'')], modifiedCookies = [] \<rparr>
       (DeleteName (str ''b''))
     = (Inr False,
        \<lparr> originalCookies = [(str ''a'', str ''1'')],
          modifiedCookies =
            [\<lparr> name = str ''b'', cvalue = [], domain = [], path = str ''/'',
               expires = Num 1, secure = False, sameSite = Lax, httpOnly = False, maxAge = NaN,
               partitioned = False \<rparr>] \<rparr>)"
proof -
  let ?m = "\<lparr> originalCookies = [(str ''a'', str ''1'')], modifiedCookies = [] \<rparr>"
  have v: "isValidCookieName (str ''a'') \<and> isValidCookieDomain (orStr (Some (str ''example.com'')) [])
           \<and> isValidCookiePath (orStr (Some (str ''/x'')) (str ''/''))"
    by code_simp
  have vb: "isValidCookieName (str ''b'')" by code_simp
  have had: "CookieMap_has ?m (str ''a'')" "\<not> CookieMap_has ?m (str ''b'')"
    by code_simp+
  have r1: "pushModified (removeInternal ?m (str ''a''))
              (deleteMarker (str ''a'') (Some (str ''example.com'')) (Some (str ''/x'')))
            = \<lparr> originalCookies = [],
        modifiedCookies =
          [\<lparr> name = str ''a'', cvalue = [], domain = str ''example.com'', path = str ''/x'',
             expires = Num 1, secure = False, sameSite = Lax, httpOnly = False, maxAge = NaN,
             partitioned = False \<rparr>] \<rparr>"
    by code_simp
  have r2: "pushModified (removeInternal ?m (str ''b'')) (deleteMarker (str ''b'') None None)
            = \<lparr> originalCookies = [(str ''a'', str ''1'')],
          modifiedCookies =
            [\<lparr> name = str ''b'', cvalue = [], domain = [], path = str ''/'',
               expires = Num 1, secure = False, sameSite = Lax, httpOnly = False, maxAge = NaN,
               partitioned = False \<rparr>] \<rparr>"
    by code_simp
  have A: "CookieMap_delete ?m
     (DeleteOptions \<lparr> d_name = str ''a'', d_domain = Some (str ''example.com''), d_path = Some (str ''/x'') \<rparr>)
     = (Inr True, pushModified (removeInternal ?m (str ''a''))
              (deleteMarker (str ''a'') (Some (str ''example.com'')) (Some (str ''/x''))))"
    using C5_delete_marker [of "str ''a''" "Some (str ''example.com'')" "Some (str ''/x'')" ?m] v had
    by simp
  have B: "CookieMap_delete ?m (DeleteName (str ''b''))
     = (Inr False, pushModified (removeInternal ?m (str ''b'')) (deleteMarker (str ''b'') None None))"
    using C5_delete_marker [of "str ''b''" None None ?m] vb had
    by simp
  from A B r1 r2 show ?thesis by simp
qed

subsection \<open>Percent-decoding of a header string\<close>




subsection \<open>One entry per name\<close>




















section \<open>Properties of clone\<close>

lemma separate_new: "separate h \<Longrightarrow> separate (snd (heap_new h input))"
  unfolding separate_def heap_new_def Let_def
  by (auto simp: less_Suc_eq)

lemma separate_removeInternal:
  "separate h \<Longrightarrow> this < nextObject h \<Longrightarrow> separate (heap_removeInternal h this n)"
  unfolding separate_def heap_removeInternal_def Let_def
  by (auto simp: less_Suc_eq)


lemma separate_pushModified: "separate h \<Longrightarrow> separate (heap_pushModified h this c)"
  unfolding separate_def heap_pushModified_def by simp

lemma separate_clear: "separate h \<Longrightarrow> this < nextObject h \<Longrightarrow> separate (heap_clear h this)"
  unfolding separate_def heap_clear_def Let_def
  by (auto simp: less_Suc_eq)

lemma separate_clone: "separate h \<Longrightarrow> this < nextObject h \<Longrightarrow> separate (snd (heap_clone h this))"
  unfolding separate_def heap_clone_def heap_new_def Let_def
  by (auto simp: less_Suc_eq)

lemma separate_set: "separate h \<Longrightarrow> this < nextObject h \<Longrightarrow> separate (snd (heap_set h this x))"
  by (auto simp: heap_set_def separate_pushModified separate_removeInternal
      split: NameOrCookie.splits option.splits sum.splits)

lemma separate_delete:
  "separate h \<Longrightarrow> this < nextObject h \<Longrightarrow> separate (snd (heap_delete h this y))"
  by (auto simp: heap_delete_def Let_def separate_pushModified separate_removeInternal
      split: sum.splits)

lemma separate_mutation:
  "separate h \<Longrightarrow> this < nextObject h \<Longrightarrow> separate (applyMutation h this mut)"
  by (cases mut) (simp_all add: applyMutation_def separate_set separate_delete separate_clear)

lemma objects_removeInternal: "nextObject (heap_removeInternal h this n) = nextObject h"
  by (simp add: heap_removeInternal_def Let_def)

lemma objects_pushModified: "nextObject (heap_pushModified h this c) = nextObject h"
  by (simp add: heap_pushModified_def)

lemma objects_mutation: "nextObject (applyMutation h this mut) = nextObject h"
  by (cases mut)
    (auto simp: applyMutation_def heap_set_def heap_delete_def heap_clear_def Let_def
      objects_removeInternal objects_pushModified
      split: NameOrCookie.splits option.splits sum.splits)

lemma reachable_separate: "reachableHeap h \<Longrightarrow> separate h"
proof (induction rule: reachableHeap.induct)
  case start
  show ?case by (simp add: separate_def emptyHeap_def)
next
  case (constructed h input)
  then show ?case by (simp add: separate_new)
next
  case (mutated h this mut)
  then show ?case by (simp add: separate_mutation)
next
  case (cloned h this)
  then show ?case by (simp add: separate_clone)
qed

text \<open>What a method does to the object it is called on: the heap refines the collection.\<close>

lemma read_removeInternal:
  "readMap (heap_removeInternal h this n) this = removeInternal (readMap h this) n"
  by (simp add: readMap_def heap_removeInternal_def removeInternal_def Let_def)

lemma read_pushModified:
  "readMap (heap_pushModified h this c) this = pushModified (readMap h this) c"
  by (simp add: readMap_def heap_pushModified_def pushModified_def)

lemma read_set:
  "readMap (snd (heap_set h this x)) this
   = (case CookieMap_set (readMap h this) x of Inl e \<Rightarrow> readMap h this | Inr m' \<Rightarrow> m')"
  by (auto simp: heap_set_def CookieMap_set_def read_removeInternal read_pushModified
      split: NameOrCookie.splits option.splits sum.splits)

lemma read_delete:
  "fst (heap_delete h this y) = fst (CookieMap_delete (readMap h this) y)
   \<and> readMap (snd (heap_delete h this y)) this = snd (CookieMap_delete (readMap h this) y)"
  by (auto simp: heap_delete_def CookieMap_delete_def Let_def read_removeInternal read_pushModified
      split: sum.splits)

lemma read_clear: "readMap (heap_clear h this) this = CookieMap_clear (readMap h this)"
  by (simp add: readMap_def heap_clear_def CookieMap_clear_def Let_def)

lemma read_new: "readMap (snd (heap_new h input)) (fst (heap_new h input)) = CookieMap_constructor input"
  by (simp add: readMap_def heap_new_def Let_def)

text \<open>What a method does to every other object: nothing.\<close>

lemma frame_removeInternal:
  assumes "separate h" "this < nextObject h" "q < nextObject h" "q \<noteq> this"
  shows "readMap (heap_removeInternal h this n) q = readMap h q"
proof -
  from assms have "originalCookiesRef h q < nextArray h" "modifiedCookiesRef h q < nextArray h"
    by (auto simp: separate_def)
  then show ?thesis
    using assms(4) by (simp add: readMap_def heap_removeInternal_def Let_def)
qed

lemma frame_pushModified:
  assumes "separate h" "this < nextObject h" "q < nextObject h" "q \<noteq> this"
  shows "readMap (heap_pushModified h this c) q = readMap h q"
proof -
  from assms have "modifiedCookiesRef h q \<noteq> modifiedCookiesRef h this"
    by (auto simp: separate_def)
  then show ?thesis
    by (simp add: readMap_def heap_pushModified_def)
qed

lemma frame_replace:
  assumes "separate h" "this < nextObject h" "q < nextObject h" "q \<noteq> this"
  shows "readMap (heap_pushModified (heap_removeInternal h this n) this c) q = readMap h q"
proof -
  have "readMap (heap_pushModified (heap_removeInternal h this n) this c) q
        = readMap (heap_removeInternal h this n) q"
    using assms
    by (intro frame_pushModified) (simp_all add: separate_removeInternal objects_removeInternal)
  then show ?thesis
    using frame_removeInternal [OF assms] by simp
qed

lemma frame_clear:
  assumes "separate h" "this < nextObject h" "q < nextObject h" "q \<noteq> this"
  shows "readMap (heap_clear h this) q = readMap h q"
proof -
  from assms have "originalCookiesRef h q < nextArray h" "modifiedCookiesRef h q < nextArray h"
    by (auto simp: separate_def)
  then show ?thesis
    using assms(4) by (simp add: readMap_def heap_clear_def Let_def)
qed

lemma frame_mutation:
  assumes "separate h" "this < nextObject h" "q < nextObject h" "q \<noteq> this"
  shows "readMap (applyMutation h this mut) q = readMap h q"
proof (cases mut)
  case (DoSet x)
  then show ?thesis
    using frame_replace [OF assms]
    by (auto simp: applyMutation_def heap_set_def split: NameOrCookie.splits option.splits sum.splits)
next
  case (DoDelete y)
  then show ?thesis
    using frame_replace [OF assms] frame_removeInternal [OF assms]
    by (auto simp: applyMutation_def heap_delete_def Let_def split: sum.splits)
next
  case DoClear
  then show ?thesis
    using frame_clear [OF assms] by (simp add: applyMutation_def)
qed

lemma frame_run:
  assumes "separate h" "this < nextObject h" "q < nextObject h" "q \<noteq> this"
  shows "readMap (runMutations h this muts) q = readMap h q"
  using assms
proof (induction muts arbitrary: h)
  case Nil
  then show ?case by (simp add: runMutations_def)
next
  case (Cons mut muts)
  have step: "readMap (applyMutation h this mut) q = readMap h q"
    by (rule frame_mutation [OF Cons.prems])
  have "readMap (runMutations (applyMutation h this mut) this muts) q
        = readMap (applyMutation h this mut) q"
    using Cons.prems
    by (intro Cons.IH) (simp_all add: separate_mutation objects_mutation)
  with step show ?case by (simp add: runMutations_def)
qed

lemma clone_fresh:
  "fst (heap_clone h this) = nextObject h
   \<and> nextObject (snd (heap_clone h this)) = Suc (nextObject h)"
  by (simp add: heap_clone_def heap_new_def Let_def)

lemma read_clone:
  assumes "separate h" "this < nextObject h"
  shows "readMap (snd (heap_clone h this)) (fst (heap_clone h this)) = CookieMap_clone (readMap h this)
       \<and> readMap (snd (heap_clone h this)) this = readMap h this"
proof -
  from assms have "originalCookiesRef h this < nextArray h" "modifiedCookiesRef h this < nextArray h"
    by (auto simp: separate_def)
  then show ?thesis
    using assms(2)
    by (simp add: readMap_def heap_clone_def heap_new_def CookieMap_clone_def Let_def)
qed

lemma CookieMap_clone_same: "CookieMap_clone m = m"
  by (simp add: CookieMap_clone_def)

lemma read_mutation:
  "readMap (applyMutation h this mut) this = pureMutation (readMap h this) mut"
  by (cases mut) (simp_all add: applyMutation_def pureMutation_def read_set read_delete read_clear)

lemma read_calls:
  assumes "separate h" and "\<forall>call\<in>set calls. fst call < nextObject h" and "p < nextObject h"
  shows "readMap (runCalls h calls) p
         = foldl pureMutation (readMap h p) (map snd (filter (\<lambda>call. fst call = p) calls))"
  using assms
proof (induction calls arbitrary: h)
  case Nil
  then show ?case by (simp add: runCalls_def)
next
  case (Cons call calls)
  let ?h1 = "applyMutation h (fst call) (snd call)"
  from Cons.prems have target: "fst call < nextObject h" by simp
  have sep1: "separate ?h1"
    by (rule separate_mutation [OF Cons.prems(1) target])
  have objs1: "nextObject ?h1 = nextObject h"
    by (rule objects_mutation)
  have rest: "readMap (runCalls ?h1 calls) p
        = foldl pureMutation (readMap ?h1 p) (map snd (filter (\<lambda>call. fst call = p) calls))"
    using Cons.prems by (intro Cons.IH [OF sep1]) (simp_all add: objs1)
  have step: "readMap ?h1 p
        = (if fst call = p then pureMutation (readMap h p) (snd call) else readMap h p)"
  proof (cases "fst call = p")
    case True
    then show ?thesis using read_mutation [of h p "snd call"] by simp
  next
    case False
    then have "p \<noteq> fst call" by blast
    from frame_mutation [OF Cons.prems(1) target Cons.prems(3) this] False
    show ?thesis by simp
  qed
  have "runCalls h (call # calls) = runCalls ?h1 calls"
    by (simp add: runCalls_def)
  with rest step show ?case by simp
qed

lemma clone_references:
  assumes "separate h" and "this < nextObject h"
  shows "nextArray h \<le> originalCookiesRef (snd (heap_clone h this)) (fst (heap_clone h this))
       \<and> nextArray h \<le> modifiedCookiesRef (snd (heap_clone h this)) (fst (heap_clone h this))
       \<and> (\<forall>p < nextObject h.
             originalCookiesRef (snd (heap_clone h this)) p = originalCookiesRef h p
             \<and> modifiedCookiesRef (snd (heap_clone h this)) p = modifiedCookiesRef h p
             \<and> originalCookiesRef (snd (heap_clone h this)) (fst (heap_clone h this))
                 \<noteq> originalCookiesRef (snd (heap_clone h this)) p
             \<and> modifiedCookiesRef (snd (heap_clone h this)) (fst (heap_clone h this))
                 \<noteq> modifiedCookiesRef (snd (heap_clone h this)) p)"
proof -
  have allocated: "originalCookiesRef h p < nextArray h \<and> modifiedCookiesRef h p < nextArray h"
    if "p < nextObject h" for p
    using assms(1) that by (simp add: separate_def)
  have "originalCookiesRef (snd (heap_clone h this)) p = originalCookiesRef h p
      \<and> modifiedCookiesRef (snd (heap_clone h this)) p = modifiedCookiesRef h p
      \<and> originalCookiesRef (snd (heap_clone h this)) (fst (heap_clone h this))
          \<noteq> originalCookiesRef (snd (heap_clone h this)) p
      \<and> modifiedCookiesRef (snd (heap_clone h this)) (fst (heap_clone h this))
          \<noteq> modifiedCookiesRef (snd (heap_clone h this)) p"
    if "p < nextObject h" for p
    using allocated [OF that] that by (simp add: heap_clone_def heap_new_def Let_def)
  moreover have "nextArray h \<le> originalCookiesRef (snd (heap_clone h this)) (fst (heap_clone h this))
       \<and> nextArray h \<le> modifiedCookiesRef (snd (heap_clone h this)) (fst (heap_clone h this))"
    by (simp add: heap_clone_def heap_new_def Let_def)
  ultimately show ?thesis
    by blast
qed

lemma frame_writeArrays:
  assumes "separate h" and "p < nextObject h" and "q < nextObject h" and "q \<noteq> p"
  shows "readMap (writeArrays h p xs ys) q = readMap h q"
proof -
  from assms have "originalCookiesRef h q \<noteq> originalCookiesRef h p"
    and "modifiedCookiesRef h q \<noteq> modifiedCookiesRef h p"
    by (auto simp: separate_def)
  then show ?thesis
    by (simp add: readMap_def writeArrays_def)
qed

text \<open>
  Claim C9. In every heap the interface can build, \<open>clone\<close> returns a new object
  whose observations equal those of the object it was called on, which keeps its own.
  The clone shares no array with that object or with any other object: its two arrays
  are freshly allocated, no two objects of the new heap share an array, and overwriting
  the arrays of one of the two in place leaves what the other reads as it was. After
  that, any sequence of \<open>set\<close>, \<open>delete\<close> and \<open>clear\<close> calls on the clone leaves every
  observation of the original as it was, and any such sequence on the original leaves
  every observation of the clone as it was; and under any interleaving of such calls on
  any objects, each of the two holds what its own calls alone make of the cloned
  collection.
\<close>

theorem C9_clone_independent:
  assumes "reachableHeap h" and "this < nextObject h"
  shows "fst (heap_clone h this) \<noteq> this
    \<and> readMap (snd (heap_clone h this)) (fst (heap_clone h this)) = CookieMap_clone (readMap h this)
    \<and> observe (readMap (snd (heap_clone h this)) (fst (heap_clone h this))) = observe (readMap h this)
    \<and> observe (readMap (snd (heap_clone h this)) this) = observe (readMap h this)
    \<and> (\<forall>muts. observe (readMap (runMutations (snd (heap_clone h this)) (fst (heap_clone h this)) muts) this)
              = observe (readMap h this))
    \<and> (\<forall>muts. observe (readMap (runMutations (snd (heap_clone h this)) this muts) (fst (heap_clone h this)))
              = observe (readMap h this))
    \<and> originalCookiesRef (snd (heap_clone h this)) (fst (heap_clone h this))
        \<noteq> originalCookiesRef (snd (heap_clone h this)) this
    \<and> modifiedCookiesRef (snd (heap_clone h this)) (fst (heap_clone h this))
        \<noteq> modifiedCookiesRef (snd (heap_clone h this)) this
    \<and> nextArray h \<le> originalCookiesRef (snd (heap_clone h this)) (fst (heap_clone h this))
    \<and> nextArray h \<le> modifiedCookiesRef (snd (heap_clone h this)) (fst (heap_clone h this))
    \<and> (\<forall>p < nextObject h.
          originalCookiesRef (snd (heap_clone h this)) p = originalCookiesRef h p
          \<and> modifiedCookiesRef (snd (heap_clone h this)) p = modifiedCookiesRef h p
          \<and> originalCookiesRef h p < nextArray h \<and> modifiedCookiesRef h p < nextArray h)
    \<and> separate (snd (heap_clone h this))
    \<and> (\<forall>xs ys. readMap (writeArrays (snd (heap_clone h this)) (fst (heap_clone h this)) xs ys) this
                  = readMap h this
               \<and> readMap (writeArrays (snd (heap_clone h this)) this xs ys) (fst (heap_clone h this))
                  = readMap h this)
    \<and> (\<forall>calls. (\<forall>call\<in>set calls. fst call < nextObject (snd (heap_clone h this)))
          \<longrightarrow> readMap (runCalls (snd (heap_clone h this)) calls) this
                = foldl pureMutation (readMap h this)
                    (map snd (filter (\<lambda>call. fst call = this) calls))
              \<and> readMap (runCalls (snd (heap_clone h this)) calls) (fst (heap_clone h this))
                = foldl pureMutation (readMap h this)
                    (map snd (filter (\<lambda>call. fst call = fst (heap_clone h this)) calls)))"
proof -
  let ?clone = "fst (heap_clone h this)"
  let ?h' = "snd (heap_clone h this)"
  have sep: "separate h" by (rule reachable_separate [OF assms(1)])
  have sep': "separate ?h'" by (rule separate_clone [OF sep assms(2)])
  have fresh: "?clone = nextObject h" and objs: "nextObject ?h' = Suc (nextObject h)"
    using clone_fresh [of h this] by simp_all
  have ne: "?clone \<noteq> this" using fresh assms(2) by simp
  have this': "this < nextObject ?h'" and clone': "?clone < nextObject ?h'"
    using fresh objs assms(2) by simp_all
  note rd = read_clone [OF sep assms(2)]
  have rd_clone: "readMap ?h' ?clone = readMap h this" and rd_this: "readMap ?h' this = readMap h this"
    using rd by (simp_all add: CookieMap_clone_same)
  have A: "readMap (runMutations ?h' ?clone muts) this = readMap h this" for muts
    using frame_run [OF sep' clone' this', of muts] ne rd_this by simp
  have B: "readMap (runMutations ?h' this muts) ?clone = readMap h this" for muts
    using frame_run [OF sep' this' clone' ne, of muts] rd_clone by simp
  note refs = clone_references [OF sep assms(2)]
  have allocated: "originalCookiesRef h p < nextArray h \<and> modifiedCookiesRef h p < nextArray h"
    if "p < nextObject h" for p
    using sep that by (simp add: separate_def)
  have C: "originalCookiesRef ?h' ?clone \<noteq> originalCookiesRef ?h' this"
    "modifiedCookiesRef ?h' ?clone \<noteq> modifiedCookiesRef ?h' this"
    using refs assms(2) by blast+
  have D: "nextArray h \<le> originalCookiesRef ?h' ?clone" "nextArray h \<le> modifiedCookiesRef ?h' ?clone"
    using refs by blast+
  have E: "\<forall>p < nextObject h.
          originalCookiesRef ?h' p = originalCookiesRef h p
          \<and> modifiedCookiesRef ?h' p = modifiedCookiesRef h p
          \<and> originalCookiesRef h p < nextArray h \<and> modifiedCookiesRef h p < nextArray h"
    using refs allocated by blast
  have F: "readMap (writeArrays ?h' ?clone xs ys) this = readMap h this
         \<and> readMap (writeArrays ?h' this xs ys) ?clone = readMap h this" for xs ys
    using frame_writeArrays [OF sep' clone' this', of xs ys]
      frame_writeArrays [OF sep' this' clone' ne, of xs ys] ne rd_this rd_clone
    by simp
  have G: "readMap (runCalls ?h' calls) this
                = foldl pureMutation (readMap h this)
                    (map snd (filter (\<lambda>call. fst call = this) calls))
              \<and> readMap (runCalls ?h' calls) ?clone
                = foldl pureMutation (readMap h this)
                    (map snd (filter (\<lambda>call. fst call = ?clone) calls))"
    if "\<forall>call\<in>set calls. fst call < nextObject ?h'" for calls
    using read_calls [OF sep' that this'] read_calls [OF sep' that clone'] rd_this rd_clone
    by simp
  have old: "fst (heap_clone h this) \<noteq> this
    \<and> readMap ?h' ?clone = CookieMap_clone (readMap h this)
    \<and> observe (readMap ?h' ?clone) = observe (readMap h this)
    \<and> observe (readMap ?h' this) = observe (readMap h this)
    \<and> (\<forall>muts. observe (readMap (runMutations ?h' ?clone muts) this) = observe (readMap h this))
    \<and> (\<forall>muts. observe (readMap (runMutations ?h' this muts) ?clone) = observe (readMap h this))"
    using ne rd A B by (simp add: CookieMap_clone_same)
  from old C D E sep' F G show ?thesis
    by blast
qed

theorem C9_clone_independent_witness:
  "\<not> CookieMap_has
        (readMap
           (runMutations
              (snd (heap_clone (snd (heap_new emptyHeap (Some (InputString (str ''name=value''))))) 0))
              (fst (heap_clone (snd (heap_new emptyHeap (Some (InputString (str ''name=value''))))) 0))
              [DoSet (SetName (str ''name2'') (Some (str ''value2'')))])
           0)
        (str ''name2'')
   \<and> CookieMap_has
        (readMap
           (runMutations
              (snd (heap_clone (snd (heap_new emptyHeap (Some (InputString (str ''name=value''))))) 0))
              (fst (heap_clone (snd (heap_new emptyHeap (Some (InputString (str ''name=value''))))) 0))
              [DoSet (SetName (str ''name2'') (Some (str ''value2'')))])
           (fst (heap_clone (snd (heap_new emptyHeap (Some (InputString (str ''name=value''))))) 0)))
        (str ''name2'')
   \<and> CookieMap_get
        (readMap
           (snd (heap_clone (snd (heap_new emptyHeap (Some (InputString (str ''name=value''))))) 0))
           (fst (heap_clone (snd (heap_new emptyHeap (Some (InputString (str ''name=value''))))) 0)))
        (str ''name'')
      = Some (str ''value'')
   \<and> originalCookiesRef
        (snd (heap_clone (snd (heap_new emptyHeap (Some (InputString (str ''name=value''))))) 0))
        (fst (heap_clone (snd (heap_new emptyHeap (Some (InputString (str ''name=value''))))) 0))
      \<noteq> originalCookiesRef
          (snd (heap_clone (snd (heap_new emptyHeap (Some (InputString (str ''name=value''))))) 0)) 0
   \<and> modifiedCookiesRef
        (snd (heap_clone (snd (heap_new emptyHeap (Some (InputString (str ''name=value''))))) 0))
        (fst (heap_clone (snd (heap_new emptyHeap (Some (InputString (str ''name=value''))))) 0))
      \<noteq> modifiedCookiesRef
          (snd (heap_clone (snd (heap_new emptyHeap (Some (InputString (str ''name=value''))))) 0)) 0
   \<and> CookieMap_get
        (readMap
           (writeArrays
              (snd (heap_clone (snd (heap_new emptyHeap (Some (InputString (str ''name=value''))))) 0))
              (fst (heap_clone (snd (heap_new emptyHeap (Some (InputString (str ''name=value''))))) 0))
              [] [])
           0)
        (str ''name'')
      = Some (str ''value'')
   \<and> CookieMap_get
        (readMap
           (runCalls
              (snd (heap_clone (snd (heap_new emptyHeap (Some (InputString (str ''name=value''))))) 0))
              [(fst (heap_clone (snd (heap_new emptyHeap (Some (InputString (str ''name=value''))))) 0),
                DoSet (SetName (str ''name2'') (Some (str ''value2'')))),
               (0, DoSet (SetName (str ''name3'') (Some (str ''value3'')))),
               (fst (heap_clone (snd (heap_new emptyHeap (Some (InputString (str ''name=value''))))) 0),
                DoClear)])
           0)
        (str ''name3'')
      = Some (str ''value3'')
   \<and> CookieMap_size
        (readMap
           (runCalls
              (snd (heap_clone (snd (heap_new emptyHeap (Some (InputString (str ''name=value''))))) 0))
              [(fst (heap_clone (snd (heap_new emptyHeap (Some (InputString (str ''name=value''))))) 0),
                DoSet (SetName (str ''name2'') (Some (str ''value2'')))),
               (0, DoSet (SetName (str ''name3'') (Some (str ''value3'')))),
               (fst (heap_clone (snd (heap_new emptyHeap (Some (InputString (str ''name=value''))))) 0),
                DoClear)])
           0)
      = 2"
proof -
  let ?input = "Some (InputString (str ''name=value''))"
  let ?h0 = "snd (heap_new emptyHeap ?input)"
  let ?clone = "fst (heap_clone ?h0 0)"
  let ?h1 = "snd (heap_clone ?h0 0)"
  let ?muts = "[DoSet (SetName (str ''name2'') (Some (str ''value2'')))]"
  let ?calls = "[(?clone, DoSet (SetName (str ''name2'') (Some (str ''value2'')))),
                 (0, DoSet (SetName (str ''name3'') (Some (str ''value3'')))),
                 (?clone, DoClear)]"
  have r: "reachableHeap ?h0"
    by (rule reachableHeap.constructed [OF reachableHeap.start])
  have o: "0 < nextObject ?h0"
    by (simp add: heap_new_def emptyHeap_def)
  note T = C9_clone_independent [OF r o]
  have m0: "readMap ?h0 0 = CookieMap_constructor ?input"
    using read_new [of emptyHeap ?input] by (simp add: heap_new_def emptyHeap_def)
  have g0: "CookieMap_get (CookieMap_constructor ?input) (str ''name2'') = None"
    "CookieMap_get (CookieMap_constructor ?input) (str ''name'') = Some (str ''value'')"
    by code_simp+
  from T have "observe (readMap (runMutations ?h1 ?clone ?muts) 0) = observe (readMap ?h0 0)"
    by blast
  then have "CookieMap_get (readMap (runMutations ?h1 ?clone ?muts) 0) = CookieMap_get (readMap ?h0 0)"
    by (simp add: observe_def)
  then have A: "\<not> CookieMap_has (readMap (runMutations ?h1 ?clone ?muts) 0) (str ''name2'')"
    by (simp add: CookieMap_has_def m0 g0)
  from T have "observe (readMap ?h1 ?clone) = observe (readMap ?h0 0)"
    by blast
  then have "CookieMap_get (readMap ?h1 ?clone) = CookieMap_get (readMap ?h0 0)"
    by (simp add: observe_def)
  then have C: "CookieMap_get (readMap ?h1 ?clone) (str ''name'') = Some (str ''value'')"
    by (simp add: m0 g0)
  have B: "CookieMap_has (readMap (runMutations ?h1 ?clone ?muts) ?clone) (str ''name2'')"
    by code_simp
  from T have D: "originalCookiesRef ?h1 ?clone \<noteq> originalCookiesRef ?h1 0"
    "modifiedCookiesRef ?h1 ?clone \<noteq> modifiedCookiesRef ?h1 0"
    by blast+
  from T have "readMap (writeArrays ?h1 ?clone [] []) 0 = readMap ?h0 0"
    by blast
  then have E: "CookieMap_get (readMap (writeArrays ?h1 ?clone [] []) 0) (str ''name'')
                = Some (str ''value'')"
    by (simp add: m0 g0)
  have targets: "\<forall>call\<in>set ?calls. fst call < nextObject ?h1"
    by (simp add: heap_clone_def heap_new_def emptyHeap_def Let_def)
  from T have "(\<forall>call\<in>set ?calls. fst call < nextObject ?h1)
      \<longrightarrow> readMap (runCalls ?h1 ?calls) 0
          = foldl pureMutation (readMap ?h0 0) (map snd (filter (\<lambda>call. fst call = 0) ?calls))"
    by blast
  with targets have own: "readMap (runCalls ?h1 ?calls) 0
      = foldl pureMutation (CookieMap_constructor ?input)
          (map snd (filter (\<lambda>call. fst call = 0) ?calls))"
    by (simp only: m0)
  have "CookieMap_get (foldl pureMutation (CookieMap_constructor ?input)
          (map snd (filter (\<lambda>call. fst call = 0) ?calls))) (str ''name3'') = Some (str ''value3'')"
    "CookieMap_size (foldl pureMutation (CookieMap_constructor ?input)
          (map snd (filter (\<lambda>call. fst call = 0) ?calls))) = 2"
    by code_simp+
  with own have F: "CookieMap_get (readMap (runCalls ?h1 ?calls) 0) (str ''name3'') = Some (str ''value3'')"
    "CookieMap_size (readMap (runCalls ?h1 ?calls) 0) = 2"
    by simp_all
  from A B C D E F show ?thesis by blast
qed

end
